theory Spec2Isabelle
  imports Main "HOL-Library.Sublist"
begin

section \<open>HTTP exchanges\<close>

text \<open>
  The program is \<^verbatim>\<open>src/server.js\<close>: an Express 4 application (it registers
  \<^verbatim>\<open>app.options('*', ...)\<close>) made of library middleware configured with literal options,
  one callback for the CORS origin check, a request logger, a health route and a catch-all
  404 handler. A request is what Node's HTTP parser hands to Express: a method token, the
  path of the URL, the remote address, and the headers the registered middleware reads.
\<close>

datatype http_method = GET | HEAD | POST | PUT | DELETE | OPTIONS | PATCH | TRACE | EXT string

fun method_name :: "http_method \<Rightarrow> string" where
  "method_name GET = ''GET''"
| "method_name HEAD = ''HEAD''"
| "method_name POST = ''POST''"
| "method_name PUT = ''PUT''"
| "method_name DELETE = ''DELETE''"
| "method_name OPTIONS = ''OPTIONS''"
| "method_name PATCH = ''PATCH''"
| "method_name TRACE = ''TRACE''"
| "method_name (EXT s) = s"

datatype json =
  JNull | JBool bool | JNumber int | JString string
  | JArray "json list" | JObject "(string \<times> json) list"

text \<open>
  \<open>req_origin\<close> is \<^verbatim>\<open>req.headers.origin\<close> (\<open>None\<close> for \<^verbatim>\<open>undefined\<close>, \<open>Some []\<close> for a
  header line with an empty value). \<open>req_media_type\<close> is the media type of the
  \<^verbatim>\<open>Content-Type\<close> header as the body parsers compare it: lower case, parameters removed.
  \<open>req_payload\<close> is \<open>None\<close> for a request without a body (neither \<^verbatim>\<open>Content-Length\<close> nor
  \<^verbatim>\<open>Transfer-Encoding\<close>), otherwise the bytes received, with identity content coding and a
  UTF-8 charset.
\<close>

record request =
  req_method :: http_method
  req_path :: string
  req_ip :: string
  req_origin :: "string option"
  req_cookie :: "string option"
  req_media_type :: "string option"
  req_payload :: "string option"

text \<open>
  Response headers form a table from names to values; \<^verbatim>\<open>res.setHeader(k, v)\<close> is
  \<open>hs(k \<mapsto> v)\<close>. The table holds the headers written by the middleware and handlers
  registered in \<^verbatim>\<open>server.js\<close>; the headers Node and Express add on their own
  (\<^verbatim>\<open>Date\<close>, \<^verbatim>\<open>ETag\<close>, \<^verbatim>\<open>Vary\<close>, ...) are not tracked.
\<close>

datatype hvalue = HStr string | HNum nat

type_synonym header_table = "string \<rightharpoonup> hvalue"

text \<open>
  An error passed to \<^verbatim>\<open>next\<close> is either a plain \<^verbatim>\<open>new Error(message)\<close>, which has no
  status, or an error the body parsers create with a status and a \<^verbatim>\<open>type\<close>.
\<close>

datatype pipeline_error = Error string | HttpError nat string

fun err_status :: "pipeline_error \<Rightarrow> nat option" where
  "err_status (Error msg) = None"
| "err_status (HttpError st ty) = Some st"

datatype payload = NoBody | JsonBody json | TextBody string | ErrorDocument pipeline_error

record response =
  status :: nat
  headers :: header_table
  payload :: payload

section \<open>Server state and the exchange handed along the stack\<close>

text \<open>
  The rate limiter's in-memory store keeps, per client key, the hits of the current window
  and the instant (milliseconds) the window ends. \<open>stdout\<close> collects the lines written by
  \<^verbatim>\<open>console.log\<close>. The database connection opened by \<^verbatim>\<open>DataBaseConnect()\<close> (line 15) is
  not awaited or inspected by \<^verbatim>\<open>server.js\<close>; its state is an opaque value that only the
  mounted routers can read or change.
\<close>

record client =
  totalHits :: nat
  resetTime :: nat

record 'db server_state =
  rl_store :: "string \<rightharpoonup> client"
  stdout :: "string list"
  database :: 'db

datatype stage =
  RateLimiter | SecurityHeaders | CorsGate | CorsPreflight | JsonBodyParser | CookieParser
  | UrlencodedBodyParser | RequestLogger | EmailRoutes | AuthRoutes | HealthCheck | NotFound

text \<open>
  An exchange is the pair \<^verbatim>\<open>(req, res)\<close> while it travels through the stack: the request,
  the properties middleware attaches to it (\<^verbatim>\<open>req.body\<close>, \<^verbatim>\<open>req._body\<close>, \<^verbatim>\<open>req.cookies\<close>),
  the response headers written so far, the clock reading (milliseconds since the epoch; one
  reading per request), the server state, and the stages whose handler has been invoked.
\<close>

record 'db exchange =
  request :: request
  body :: "json option"
  body_read :: bool
  cookies :: "(string \<times> string) list option"
  res_headers :: header_table
  clock :: nat
  world :: "'db server_state"
  visited :: "stage list"

text \<open>
  A handler ends in one of three ways: it calls \<^verbatim>\<open>next()\<close>, it calls \<^verbatim>\<open>next(err)\<close>, or it
  sends the response.
\<close>

datatype 'db outcome =
  Next "'db exchange"
  | NextErr pipeline_error "'db exchange"
  | Sent response "'db exchange"

text \<open>
  \<^verbatim>\<open>res.send\<close> and the other senders leave the body out of the answer to a \<^verbatim>\<open>HEAD\<close>
  request. \<^verbatim>\<open>res.json\<close> and \<^verbatim>\<open>res.send(string)\<close> set \<^verbatim>\<open>Content-Type\<close> unless one is set.
\<close>

definition send :: "nat \<Rightarrow> header_table \<Rightarrow> payload \<Rightarrow> 'db exchange \<Rightarrow> 'db outcome" where
  "send st hs b x =
     Sent \<lparr>status = st, headers = hs,
           payload = (if req_method (request x) = HEAD then NoBody else b)\<rparr> x"

definition default_type :: "string \<Rightarrow> header_table \<Rightarrow> header_table" where
  "default_type t hs =
     (case hs ''Content-Type'' of None \<Rightarrow> hs(''Content-Type'' \<mapsto> HStr t) | Some _ \<Rightarrow> hs)"

definition res_json :: "nat \<Rightarrow> json \<Rightarrow> 'db exchange \<Rightarrow> 'db outcome" where
  "res_json st j x =
     send st (default_type ''application/json; charset=utf-8'' (res_headers x)) (JsonBody j) x"

definition res_send :: "nat \<Rightarrow> string \<Rightarrow> 'db exchange \<Rightarrow> 'db outcome" where
  "res_send st msg x =
     send st (default_type ''text/html; charset=utf-8'' (res_headers x)) (TextBody msg) x"

section \<open>Collaborators outside \<^verbatim>\<open>server.js\<close>\<close>

text \<open>
  The two routers are imported from other modules (lines 8-9). A mounted router answers,
  passes the request on, or fails, and may change the database on the way. Each
  router stands for the router as mounted, that is, behind the prefix Express strips from
  the URL. The remaining fields are what the installed libraries and the runtime fix: the
  header set written by \<^verbatim>\<open>helmet()\<close>; the rule by which the rate limiter's default store
  ends a window (\<open>window_end env ms now\<close> is the instant at which a window of length \<open>ms\<close>
  opened at \<open>now\<close> ends: \<open>now + ms\<close> for a store that times each client on its own, the
  next tick of a timer of period \<open>ms\<close> for a store that resets all clients together);
  \<^verbatim>\<open>JSON.parse\<close> (\<open>None\<close> when it throws); the query-string parser of
  \<^verbatim>\<open>express.urlencoded\<close>; the cookie-header parser; and \<^verbatim>\<open>decodeURIComponent\<close>, with which
  Express decodes the path parameters of a route (\<open>None\<close> when it throws \<^verbatim>\<open>URIError\<close>, as
  it does for a malformed percent-escape such as \<^verbatim>\<open>%c0\<close>).
\<close>

datatype 'db router_result = Handled response 'db | PassOn 'db | Failed pipeline_error 'db

record 'db env =
  sequenceRoutes :: "'db exchange \<Rightarrow> 'db router_result"
  authRoutes :: "'db exchange \<Rightarrow> 'db router_result"
  helmet_headers :: header_table
  window_end :: "nat \<Rightarrow> nat \<Rightarrow> nat"
  JSON_parse :: "string \<Rightarrow> json option"
  qs_parse :: "string \<Rightarrow> json"
  cookie_parse :: "string \<Rightarrow> (string \<times> string) list"
  decodeURIComponent :: "string \<Rightarrow> string option"

definition mounted :: "('db exchange \<Rightarrow> 'db router_result) \<Rightarrow> 'db exchange \<Rightarrow> 'db outcome" where
  "mounted r x =
     (case r x of
        Handled resp db \<Rightarrow> Sent resp (x\<lparr>world := (world x)\<lparr>database := db\<rparr>\<rparr>)
      | PassOn db \<Rightarrow> Next (x\<lparr>world := (world x)\<lparr>database := db\<rparr>\<rparr>)
      | Failed e db \<Rightarrow> NextErr e (x\<lparr>world := (world x)\<lparr>database := db\<rparr>\<rparr>))"

section \<open>Express 4 routing\<close>

text \<open>
  Express compares paths without regard to ASCII letter case and, since strict routing is
  off, lets a route path end with one optional slash. A mount path \<^verbatim>\<open>app.use(prefix, r)\<close>
  matches when the path starts with the prefix and the prefix ends at a segment boundary.
  The route path \<^verbatim>\<open>'*'\<close> matches every path.
\<close>

definition lower_char :: "char \<Rightarrow> char" where
  "lower_char c =
     (case map_of (zip ''ABCDEFGHIJKLMNOPQRSTUVWXYZ'' ''abcdefghijklmnopqrstuvwxyz'') c of
        None \<Rightarrow> c | Some d \<Rightarrow> d)"

definition lower :: "string \<Rightarrow> string" where
  "lower s = map lower_char s"

definition route_path_matches :: "string \<Rightarrow> string \<Rightarrow> bool" where
  "route_path_matches pat p =
     (pat = ''*'' \<or> lower p = lower pat \<or> lower p = lower pat @ ''/'')"

definition mount_matches :: "string \<Rightarrow> string \<Rightarrow> bool" where
  "mount_matches mnt p =
     (lower (take (length mnt) p) = lower mnt \<and>
      (case drop (length mnt) p of [] \<Rightarrow> True | ch # _ \<Rightarrow> ch = CHR ''/''))"

text \<open>
  A route registered with \<^verbatim>\<open>app.get\<close> also answers \<^verbatim>\<open>HEAD\<close> when no \<^verbatim>\<open>HEAD\<close> route is
  registered for it.
\<close>

definition handles_method :: "http_method \<Rightarrow> http_method \<Rightarrow> bool" where
  "handles_method registered m = (m = registered \<or> (m = HEAD \<and> registered = GET))"

text \<open>
  A layer that matches a path stores the path parameters it captured, each decoded by
  \<^verbatim>\<open>decode_param\<close>: the empty string stays as it is, and a string that \<^verbatim>\<open>decodeURIComponent\<close>
  refuses is the error \<^verbatim>\<open>Failed to decode param\<close> with status 400. Of the paths registered
  in \<^verbatim>\<open>server.js\<close> only \<^verbatim>\<open>'*'\<close> captures a parameter: the whole path.
\<close>

definition decode_failure :: "string \<Rightarrow> pipeline_error" where
  "decode_failure val =
     HttpError 400 (''Failed to decode param '' @ [CHR 0x27] @ val @ [CHR 0x27])"

definition decode_param :: "'db env \<Rightarrow> string \<Rightarrow> pipeline_error + string" where
  "decode_param env val =
     (if val = [] then Inr val
      else (case decodeURIComponent env val of
              None \<Rightarrow> Inl (decode_failure val)
            | Some s \<Rightarrow> Inr s))"

text \<open>
  The router looks for the next layer in two steps. \<^verbatim>\<open>matchLayer\<close> tests the path, and the
  test itself fails when a captured parameter cannot be decoded. For a layer made by
  \<^verbatim>\<open>app.get\<close> or \<^verbatim>\<open>app.options\<close> whose path matched, the router then asks whether the
  route handles the request method; the path is tested first, whatever the method. (For a
  \<^verbatim>\<open>HEAD\<close> request the router enters a route that does not handle it and finds no handler
  there, which leaves the exchange as a layer that does not match does.)
\<close>

datatype matcher = AnyPath | Mounted string | RouteOf http_method string

datatype match = Matched | Unmatched | MatchError pipeline_error

fun matchLayer :: "'db env \<Rightarrow> matcher \<Rightarrow> string \<Rightarrow> match" where
  "matchLayer env AnyPath p = Matched"
| "matchLayer env (Mounted mnt) p = (if mount_matches mnt p then Matched else Unmatched)"
| "matchLayer env (RouteOf m pat) p =
     (if pat = ''*''
      then (case decode_param env p of Inl e \<Rightarrow> MatchError e | Inr v \<Rightarrow> Matched)
      else if route_path_matches pat p then Matched else Unmatched)"

fun route_method :: "matcher \<Rightarrow> http_method option" where
  "route_method AnyPath = None"
| "route_method (Mounted mnt) = None"
| "route_method (RouteOf m pat) = Some m"

definition layer_matches :: "'db env \<Rightarrow> matcher \<Rightarrow> request \<Rightarrow> match" where
  "layer_matches env m r =
     (case matchLayer env m (req_path r) of
        Matched \<Rightarrow>
          (case route_method m of
             None \<Rightarrow> Matched
           | Some registered \<Rightarrow>
               if handles_method registered (req_method r) then Matched else Unmatched)
      | Unmatched \<Rightarrow> Unmatched
      | MatchError e \<Rightarrow> MatchError e)"

datatype 'db layer = Layer stage matcher "'db exchange \<Rightarrow> 'db outcome"

text \<open>
  The router walks its stack in registration order. A layer that matches has its handler
  invoked; \<^verbatim>\<open>next()\<close> moves on to the following layer, a sent response ends the walk, and
  \<^verbatim>\<open>next(err)\<close> skips every remaining layer, none of which takes an error argument. An
  error raised by the path test of a layer is held by the router in the same way: no
  later middleware is invoked, no later route matches, and the error reaches the final
  handler.
\<close>

fun dispatch :: "'db env \<Rightarrow> 'db layer list \<Rightarrow> 'db exchange \<Rightarrow> 'db outcome" where
  "dispatch env [] x = Next x"
| "dispatch env (Layer s m h # ls) x =
     (case layer_matches env m (request x) of
        Matched \<Rightarrow>
          (case h (x\<lparr>visited := visited x @ [s]\<rparr>) of
             Next x' \<Rightarrow> dispatch env ls x'
           | NextErr e x' \<Rightarrow> NextErr e x'
           | Sent r x' \<Rightarrow> Sent r x')
      | Unmatched \<Rightarrow> dispatch env ls x
      | MatchError e \<Rightarrow> NextErr e x)"

text \<open>
  What Express does when the stack is exhausted or an error was passed on: the error's own
  status if it has one, else 500 (the response status is still 200 then), with an HTML
  error document; 404 when no layer answered.
\<close>

definition error_response :: "pipeline_error \<Rightarrow> nat \<Rightarrow> 'db exchange \<Rightarrow> response" where
  "error_response e st x =
     \<lparr>status = st,
      headers = (res_headers x)
        (''Content-Security-Policy'' \<mapsto> HStr ''default-src 'none' '',
         ''X-Content-Type-Options'' \<mapsto> HStr ''nosniff'',
         ''Content-Type'' \<mapsto> HStr ''text/html; charset=utf-8''),
      payload = (if req_method (request x) = HEAD then NoBody else ErrorDocument e)\<rparr>"

fun finalhandler :: "'db outcome \<Rightarrow> response \<times> 'db exchange" where
  "finalhandler (Sent r x) = (r, x)"
| "finalhandler (NextErr e x) =
     (error_response e (case err_status e of Some s \<Rightarrow> s | None \<Rightarrow> 500) x, x)"
| "finalhandler (Next x) =
     (error_response
        (HttpError 404
           (''Cannot '' @ method_name (req_method (request x)) @ '' '' @ req_path (request x)))
        404 x, x)"

section \<open>\<^verbatim>\<open>new Date().toISOString()\<close>\<close>

text \<open>
  The clock counts milliseconds since 1970-01-01T00:00:00Z. \<^verbatim>\<open>toISOString\<close> renders an
  instant in UTC as \<^verbatim>\<open>YYYY-MM-DDTHH:mm:ss.sssZ\<close>, with a sign and six digits for a year
  past 9999. The date is found from the day number by the usual era arithmetic over
  400-year cycles that start on 1 March.
\<close>

definition digit :: "nat \<Rightarrow> char" where
  "digit n = ''0123456789'' ! (n mod 10)"

definition pad2 :: "nat \<Rightarrow> string" where
  "pad2 n = [digit (n div 10), digit n]"

definition pad3 :: "nat \<Rightarrow> string" where
  "pad3 n = [digit (n div 100), digit (n div 10), digit n]"

definition pad4 :: "nat \<Rightarrow> string" where
  "pad4 n = [digit (n div 1000), digit (n div 100), digit (n div 10), digit n]"

definition civil_from_days :: "nat \<Rightarrow> nat \<times> nat \<times> nat" where
  "civil_from_days days =
     (let z = days + 719468;
          era = z div 146097;
          doe = z mod 146097;
          yoe = (doe - doe div 1460 + doe div 36524 - doe div 146096) div 365;
          doy = doe - (365 * yoe + yoe div 4 - yoe div 100);
          mp = (5 * doy + 2) div 153;
          d = doy - (153 * mp + 2) div 5 + 1;
          m = (if mp < 10 then mp + 3 else mp - 9);
          y = yoe + era * 400 + (if m \<le> 2 then 1 else 0)
      in (y, m, d))"

definition toISOString :: "nat \<Rightarrow> string" where
  "toISOString t =
     (let (y, m, d) = civil_from_days (t div 86400000);
          ms = t mod 86400000
      in (if y \<le> 9999 then pad4 y else ''+'' @ pad2 (y div 10000) @ pad4 y)
         @ ''-'' @ pad2 m @ ''-'' @ pad2 d @ ''T''
         @ pad2 (ms div 3600000) @ '':'' @ pad2 (ms div 60000 mod 60) @ '':''
         @ pad2 (ms div 1000 mod 60) @ ''.'' @ pad3 (ms mod 1000) @ ''Z'')"

section \<open>Rate limiting (lines 23-28)\<close>

text \<open>
  \<^verbatim>\<open>rateLimit(options)\<close> of express-rate-limit with its default in-memory store and default
  key (\<^verbatim>\<open>req.ip\<close>). The store keeps a client's hits until its window ends; the first hit
  after that opens the next window, which ends where the store's rule \<open>opens\<close> says. Every
  request adds one hit, also a request that is then refused. A request is refused with
  status 429 when the hits of its window exceed \<open>max\<close>. The field \<open>max_hits\<close> is the option
  \<^verbatim>\<open>max\<close>.
\<close>

record rate_limit_options =
  windowMs :: nat
  max_hits :: nat
  standardHeaders :: bool
  legacyHeaders :: bool

definition increment ::
  "(nat \<Rightarrow> nat) \<Rightarrow> (string \<rightharpoonup> client) \<Rightarrow> string \<Rightarrow> nat
     \<Rightarrow> client \<times> (string \<rightharpoonup> client)" where
  "increment opens st key now =
     (let opened = \<lparr>totalHits = 0, resetTime = opens now\<rparr>;
          c = (case st key of
                 None \<Rightarrow> opened
               | Some c0 \<Rightarrow> if resetTime c0 \<le> now then opened else c0);
          c' = c\<lparr>totalHits := totalHits c + 1\<rparr>
      in (c', st(key \<mapsto> c')))"

definition ceil_div :: "nat \<Rightarrow> nat \<Rightarrow> nat" where
  "ceil_div a b = (a + b - 1) div b"

definition legacy_headers :: "nat \<Rightarrow> client \<Rightarrow> header_table \<Rightarrow> header_table" where
  "legacy_headers limit c hs =
     hs(''X-RateLimit-Limit'' \<mapsto> HNum limit,
        ''X-RateLimit-Remaining'' \<mapsto> HNum (limit - totalHits c),
        ''X-RateLimit-Reset'' \<mapsto> HNum (ceil_div (resetTime c) 1000))"

definition standard_headers :: "nat \<Rightarrow> nat \<Rightarrow> client \<Rightarrow> header_table \<Rightarrow> header_table" where
  "standard_headers limit now c hs =
     hs(''RateLimit-Limit'' \<mapsto> HNum limit,
        ''RateLimit-Remaining'' \<mapsto> HNum (limit - totalHits c),
        ''RateLimit-Reset'' \<mapsto> HNum (ceil_div (resetTime c - now) 1000))"

definition rateLimit ::
  "(nat \<Rightarrow> nat \<Rightarrow> nat) \<Rightarrow> rate_limit_options \<Rightarrow> 'db exchange \<Rightarrow> 'db outcome" where
  "rateLimit store opts x =
     (let (c, st') = increment (store (windowMs opts)) (rl_store (world x))
                       (req_ip (request x)) (clock x);
          hs1 = (if legacyHeaders opts
                 then legacy_headers (max_hits opts) c (res_headers x)
                 else res_headers x);
          hs2 = (if standardHeaders opts
                 then standard_headers (max_hits opts) (clock x) c hs1
                 else hs1);
          x' = x\<lparr>res_headers := hs2, world := (world x)\<lparr>rl_store := st'\<rparr>\<rparr>
      in if totalHits c > max_hits opts
         then res_send 429 ''Too many requests, please try again later.'' x'
         else Next x')"

definition limiter_options :: rate_limit_options where
  "limiter_options =
     \<lparr>windowMs = 15 * 60 * 1000, max_hits = 100, standardHeaders = True, legacyHeaders = False\<rparr>"

definition limiter :: "'db env \<Rightarrow> 'db exchange \<Rightarrow> 'db outcome" where
  "limiter env = rateLimit (window_end env) limiter_options"

section \<open>Security headers (line 61)\<close>

definition helmet :: "'db env \<Rightarrow> 'db exchange \<Rightarrow> 'db outcome" where
  "helmet env x = Next (x\<lparr>res_headers := res_headers x ++ helmet_headers env\<rparr>)"

section \<open>The CORS gate (lines 31-57)\<close>

text \<open>
  The \<^verbatim>\<open>origin\<close> option is a function of the request's \<^verbatim>\<open>Origin\<close> header that calls back
  with \<^verbatim>\<open>(null, true)\<close> or with an error. \<^verbatim>\<open>!origin\<close> holds for \<^verbatim>\<open>undefined\<close> and for the
  empty string.
\<close>

datatype origin_decision = Allowed | Refused pipeline_error

fun indexOf :: "'a list \<Rightarrow> 'a \<Rightarrow> int" where
  "indexOf [] a = - 1"
| "indexOf (y # ys) a =
     (if y = a then 0 else (let i = indexOf ys a in if i = - 1 then - 1 else i + 1))"

definition allowedOrigins :: "string list" where
  "allowedOrigins = [''http://localhost:5173'', ''https://salesfrontend-eight.vercel.app'']"

definition falsy :: "string option \<Rightarrow> bool" where
  "falsy v = (case v of None \<Rightarrow> True | Some s \<Rightarrow> s = [])"

definition origin_callback :: "string option \<Rightarrow> origin_decision" where
  "origin_callback org =
     (if falsy org \<or> (case org of None \<Rightarrow> False | Some s \<Rightarrow> indexOf allowedOrigins s \<noteq> - 1)
      then Allowed
      else Refused (Error ''Not allowed by CORS''))"

record cors_options =
  origin :: "string option \<Rightarrow> origin_decision"
  methods :: "string list"
  allowedHeaders :: "string list"
  credentials :: bool
  optionsSuccessStatus :: nat

definition corsOptions :: cors_options where
  "corsOptions =
     \<lparr>origin = origin_callback,
      methods = [''GET'', ''POST'', ''PUT'', ''DELETE'', ''OPTIONS'', ''PATCH''],
      allowedHeaders = [''Content-Type'', ''Authorization'', ''X-Requested-With'', ''Accept'',
                        ''Origin'', ''Cache-Control''],
      credentials = True,
      optionsSuccessStatus = 200\<rparr>"

text \<open>
  The \<^verbatim>\<open>cors\<close> middleware for an \<^verbatim>\<open>origin\<close> option that is a function. An error from the
  callback goes to \<^verbatim>\<open>next\<close>. Otherwise the request's origin is reflected in
  \<^verbatim>\<open>Access-Control-Allow-Origin\<close> (a header with a falsy value is not written), the
  credentials header is written, and a request with the method \<^verbatim>\<open>OPTIONS\<close> is answered on
  the spot with the methods and headers lists, the status \<open>optionsSuccessStatus\<close> and an
  empty body; any other request goes on.
\<close>

fun join :: "string \<Rightarrow> string list \<Rightarrow> string" where
  "join sep [] = []"
| "join sep [s] = s"
| "join sep (s # t # ts) = s @ sep @ join sep (t # ts)"

definition configureOrigin :: "string option \<Rightarrow> header_table \<Rightarrow> header_table" where
  "configureOrigin org hs =
     (case org of
        None \<Rightarrow> hs
      | Some s \<Rightarrow> if s = [] then hs else hs(''Access-Control-Allow-Origin'' \<mapsto> HStr s))"

definition configureCredentials :: "cors_options \<Rightarrow> header_table \<Rightarrow> header_table" where
  "configureCredentials opts hs =
     (if credentials opts then hs(''Access-Control-Allow-Credentials'' \<mapsto> HStr ''true'') else hs)"

definition configureMethods :: "cors_options \<Rightarrow> header_table \<Rightarrow> header_table" where
  "configureMethods opts hs = hs(''Access-Control-Allow-Methods'' \<mapsto> HStr (join '','' (methods opts)))"

definition configureAllowedHeaders :: "cors_options \<Rightarrow> header_table \<Rightarrow> header_table" where
  "configureAllowedHeaders opts hs =
     (if allowedHeaders opts = [] then hs
      else hs(''Access-Control-Allow-Headers'' \<mapsto> HStr (join '','' (allowedHeaders opts))))"

definition cors :: "cors_options \<Rightarrow> 'db exchange \<Rightarrow> 'db outcome" where
  "cors opts x =
     (case origin opts (req_origin (request x)) of
        Refused e \<Rightarrow> NextErr e x
      | Allowed \<Rightarrow>
          (let hs = configureCredentials opts
                      (configureOrigin (req_origin (request x)) (res_headers x))
           in if req_method (request x) = OPTIONS
              then (let hs' = (configureAllowedHeaders opts (configureMethods opts hs))
                                (''Content-Length'' \<mapsto> HStr ''0'')
                    in Sent \<lparr>status = optionsSuccessStatus opts, headers = hs', payload = NoBody\<rparr>
                         (x\<lparr>res_headers := hs'\<rparr>))
              else Next (x\<lparr>res_headers := hs\<rparr>)))"

section \<open>Body parsing, cookies and logging (lines 66-79)\<close>

text \<open>
  The limit \<^verbatim>\<open>'10kb'\<close> is ten times 1024 bytes.
\<close>

definition limit_10kb :: nat where
  "limit_10kb = 10 * 1024"

text \<open>
  \<^verbatim>\<open>express.json\<close> with its defaults (strict mode on, type \<^verbatim>\<open>application/json\<close>). It skips
  a request whose body was already read, one without a body and one of another media type.
  Otherwise it marks the body as read and reads it: more bytes than the limit is the error
  413; an empty body parses to the empty object; in strict mode the first character after
  JSON white space must open an object or an array; then \<^verbatim>\<open>JSON.parse\<close> decides.
\<close>

definition first_char :: "string \<Rightarrow> char option" where
  "first_char s =
     (case dropWhile (\<lambda>c. c \<in> set [CHR 0x20, CHR 0x09, CHR 0x0A, CHR 0x0D]) s of
        [] \<Rightarrow> None | c # _ \<Rightarrow> Some c)"

definition body_or_empty :: "json option \<Rightarrow> json option" where
  "body_or_empty b = (case b of None \<Rightarrow> Some (JObject []) | Some j \<Rightarrow> Some j)"

definition express_json :: "'db env \<Rightarrow> nat \<Rightarrow> 'db exchange \<Rightarrow> 'db outcome" where
  "express_json env limit x =
     (if body_read x then Next x
      else let x1 = x\<lparr>body := body_or_empty (body x)\<rparr> in
        (case req_payload (request x) of
           None \<Rightarrow> Next x1
         | Some raw \<Rightarrow>
             if req_media_type (request x) \<noteq> Some ''application/json'' then Next x1
             else let x2 = x1\<lparr>body_read := True\<rparr> in
               if length raw > limit then NextErr (HttpError 413 ''entity.too.large'') x2
               else if raw = [] then Next (x2\<lparr>body := Some (JObject [])\<rparr>)
               else if first_char raw \<noteq> Some CHR ''{'' \<and> first_char raw \<noteq> Some CHR ''[''
               then NextErr (HttpError 400 ''entity.parse.failed'') x2
               else (case JSON_parse env raw of
                       None \<Rightarrow> NextErr (HttpError 400 ''entity.parse.failed'') x2
                     | Some j \<Rightarrow> Next (x2\<lparr>body := Some j\<rparr>))))"

text \<open>
  \<^verbatim>\<open>cookieParser()\<close> without a secret: \<^verbatim>\<open>req.cookies\<close> becomes the parsed \<^verbatim>\<open>Cookie\<close> header,
  or the empty object when there is none.
\<close>

definition cookieParser :: "'db env \<Rightarrow> 'db exchange \<Rightarrow> 'db outcome" where
  "cookieParser env x =
     (case cookies x of
        Some _ \<Rightarrow> Next x
      | None \<Rightarrow>
          Next (x\<lparr>cookies := Some (case req_cookie (request x) of
                                     None \<Rightarrow> []
                                   | Some h \<Rightarrow> cookie_parse env h)\<rparr>))"

text \<open>
  \<^verbatim>\<open>express.urlencoded\<close> with \<^verbatim>\<open>extended: true\<close>: the same skips and the same size check for
  the media type \<^verbatim>\<open>application/x-www-form-urlencoded\<close>; a body with 1000 or more
  \<^verbatim>\<open>&\<close> separators is refused (the default parameter limit).
\<close>

definition express_urlencoded :: "'db env \<Rightarrow> nat \<Rightarrow> 'db exchange \<Rightarrow> 'db outcome" where
  "express_urlencoded env limit x =
     (if body_read x then Next x
      else let x1 = x\<lparr>body := body_or_empty (body x)\<rparr> in
        (case req_payload (request x) of
           None \<Rightarrow> Next x1
         | Some raw \<Rightarrow>
             if req_media_type (request x) \<noteq> Some ''application/x-www-form-urlencoded''
             then Next x1
             else let x2 = x1\<lparr>body_read := True\<rparr> in
               if length raw > limit then NextErr (HttpError 413 ''entity.too.large'') x2
               else if raw = [] then Next (x2\<lparr>body := Some (JObject [])\<rparr>)
               else if count_list raw CHR ''&'' \<ge> 1000
               then NextErr (HttpError 413 ''parameters.too.many'') x2
               else Next (x2\<lparr>body := Some (qs_parse env raw)\<rparr>)))"

text \<open>
  The logging middleware of lines 76-79.
\<close>

definition console_log :: "string \<Rightarrow> 'db exchange \<Rightarrow> 'db exchange" where
  "console_log line x = x\<lparr>world := (world x)\<lparr>stdout := stdout (world x) @ [line]\<rparr>\<rparr>"

definition logger :: "'db exchange \<Rightarrow> 'db outcome" where
  "logger x =
     Next (console_log
             (method_name (req_method (request x)) @ '' '' @ req_path (request x) @ '' - ''
                @ toISOString (clock x)) x)"

section \<open>Route handlers and the application (lines 60-100)\<close>

definition health :: "'db exchange \<Rightarrow> 'db outcome" where
  "health x =
     res_json 200
       (JObject [(''status'', JString ''healthy''),
                 (''timestamp'', JString (toISOString (clock x)))]) x"

definition notFound :: "'db exchange \<Rightarrow> 'db outcome" where
  "notFound x =
     res_json 404
       (JObject [(''error'', JString ''Not Found''), (''path'', JString (req_path (request x)))]) x"

text \<open>
  The stack in the order of the \<^verbatim>\<open>app.use\<close>, \<^verbatim>\<open>app.options\<close> and \<^verbatim>\<open>app.get\<close> calls: the
  middleware of lines 60-79, then the routes of lines 82-100.
\<close>

definition middleware :: "'db env \<Rightarrow> 'db layer list" where
  "middleware env =
     [Layer RateLimiter AnyPath (limiter env),
      Layer SecurityHeaders AnyPath (helmet env),
      Layer CorsGate AnyPath (cors corsOptions),
      Layer CorsPreflight (RouteOf OPTIONS ''*'') (cors corsOptions),
      Layer JsonBodyParser AnyPath (express_json env limit_10kb),
      Layer CookieParser AnyPath (cookieParser env),
      Layer UrlencodedBodyParser AnyPath (express_urlencoded env limit_10kb),
      Layer RequestLogger AnyPath logger]"

definition routes :: "'db env \<Rightarrow> 'db layer list" where
  "routes env =
     [Layer EmailRoutes (Mounted ''/api/v1/email'') (mounted (sequenceRoutes env)),
      Layer AuthRoutes (Mounted ''/api/v1/auth'') (mounted (authRoutes env)),
      Layer HealthCheck (RouteOf GET ''/health'') health,
      Layer NotFound AnyPath notFound]"

definition app :: "'db env \<Rightarrow> 'db layer list" where
  "app env = middleware env @ routes env"

text \<open>
  Serving one request: a fresh exchange over the current server state walks the stack, and
  the result is the response, the server state left behind and the stages that ran.
\<close>

definition arrive :: "'db server_state \<Rightarrow> nat \<Rightarrow> request \<Rightarrow> 'db exchange" where
  "arrive w now r =
     \<lparr>request = r, body = None, body_read = False, cookies = None, res_headers = Map.empty,
      clock = now, world = w, visited = []\<rparr>"

definition serve ::
  "'db env \<Rightarrow> 'db server_state \<Rightarrow> nat \<Rightarrow> request \<Rightarrow> response \<times> 'db exchange" where
  "serve env w now r = finalhandler (dispatch env (app env) (arrive w now r))"

section \<open>Observing a walk through the stack\<close>

text \<open>
  \<open>final\<close> is the exchange a handler or a walk leaves behind, whichever way it ended.
  \<open>matching\<close> lists, in registration order, the stages of the layers that match a request.
  A handler preserves an observation of the exchange when the exchange it leaves behind
  shows the same value; it is \<open>framed\<close> when it leaves the request, the clock reading and
  the record of visited stages alone.
\<close>

fun final :: "'db outcome \<Rightarrow> 'db exchange" where
  "final (Next x) = x"
| "final (NextErr e x) = x"
| "final (Sent r x) = x"

fun stage_of :: "'db layer \<Rightarrow> stage" where
  "stage_of (Layer s m h) = s"

fun matcher_of :: "'db layer \<Rightarrow> matcher" where
  "matcher_of (Layer s m h) = m"

fun handler_of :: "'db layer \<Rightarrow> 'db exchange \<Rightarrow> 'db outcome" where
  "handler_of (Layer s m h) = h"

definition matching :: "'db env \<Rightarrow> 'db layer list \<Rightarrow> request \<Rightarrow> stage list" where
  "matching env ls r =
     map stage_of (filter (\<lambda>l. layer_matches env (matcher_of l) r = Matched) ls)"

definition preserves :: "('db exchange \<Rightarrow> 'a) \<Rightarrow> ('db exchange \<Rightarrow> 'db outcome) \<Rightarrow> bool" where
  "preserves f h = (\<forall>x. f (final (h x)) = f x)"

definition framed :: "('db exchange \<Rightarrow> 'db outcome) \<Rightarrow> bool" where
  "framed h = (preserves request h \<and> preserves clock h \<and> preserves visited h)"

text \<open>
  \<open>proceed\<close> continues a walk after a handler has returned. \<open>counted\<close> is the exchange
  the rate limiter leaves behind for a fresh request, and \<open>secured\<close> the exchange that
  arrives at the CORS gate when the limiter let the request through. \<open>cors_headers\<close> and
  \<open>preflight_headers\<close> are the header tables the CORS gate writes for this application's
  options, and \<open>gated\<close> is the exchange the gate hands on.
\<close>

fun proceed :: "'db env \<Rightarrow> 'db layer list \<Rightarrow> 'db outcome \<Rightarrow> 'db outcome" where
  "proceed env ls (Next x) = dispatch env ls x"
| "proceed env ls (NextErr e x) = NextErr e x"
| "proceed env ls (Sent r x) = Sent r x"

definition counted :: "'db env \<Rightarrow> 'db server_state \<Rightarrow> nat \<Rightarrow> request \<Rightarrow> 'db exchange" where
  "counted env w now r = final (limiter env ((arrive w now r)\<lparr>visited := [RateLimiter]\<rparr>))"

definition secured :: "'db env \<Rightarrow> 'db server_state \<Rightarrow> nat \<Rightarrow> request \<Rightarrow> 'db exchange" where
  "secured env w now r =
     (counted env w now r)\<lparr>res_headers := res_headers (counted env w now r) ++ helmet_headers env,
        visited := [RateLimiter, SecurityHeaders, CorsGate]\<rparr>"

definition cors_headers :: "string option \<Rightarrow> header_table \<Rightarrow> header_table" where
  "cors_headers org hs = configureCredentials corsOptions (configureOrigin org hs)"

definition preflight_headers :: "string option \<Rightarrow> header_table \<Rightarrow> header_table" where
  "preflight_headers org hs =
     (configureAllowedHeaders corsOptions (configureMethods corsOptions (cors_headers org hs)))
       (''Content-Length'' \<mapsto> HStr ''0'')"

definition gated :: "'db env \<Rightarrow> 'db server_state \<Rightarrow> nat \<Rightarrow> request \<Rightarrow> 'db exchange" where
  "gated env w now r =
     (secured env w now r)\<lparr>res_headers :=
        cors_headers (req_origin r) (res_headers (secured env w now r))\<rparr>"

text \<open>
  The order in which the spec lists the middleware, and the requests that the middleware
  hands on to the routes: those for which every middleware stage called \<^verbatim>\<open>next()\<close>
  (\<open>passed\<close> tells whether a handler or a walk ended that way).
\<close>

definition pipeline_order :: "stage list" where
  "pipeline_order =
     [RateLimiter, SecurityHeaders, CorsGate, JsonBodyParser, CookieParser,
      UrlencodedBodyParser, RequestLogger]"

fun passed :: "'db outcome \<Rightarrow> bool" where
  "passed (Next x) = True"
| "passed (NextErr e x) = False"
| "passed (Sent r x) = False"

definition admitted :: "'db env \<Rightarrow> 'db server_state \<Rightarrow> nat \<Rightarrow> request \<Rightarrow> bool" where
  "admitted env w now r = passed (dispatch env (middleware env) (arrive w now r))"

text \<open>
  \<open>decodable\<close> tells whether Express can decode a path as a parameter. \<open>verdicts\<close>
  lists, for a walk, the stages whose handler was invoked, each with the way its handler
  ended: it called \<^verbatim>\<open>next()\<close>, it called \<^verbatim>\<open>next(err)\<close>, or it sent the response.
\<close>

definition decodable :: "'db env \<Rightarrow> string \<Rightarrow> bool" where
  "decodable env p = (case decode_param env p of Inl e \<Rightarrow> False | Inr v \<Rightarrow> True)"




text \<open>
  The bodies the two body parsers accept, and the value of \<^verbatim>\<open>req.body\<close> once both have
  run without an error.
\<close>

definition json_accepts :: "'db env \<Rightarrow> request \<Rightarrow> bool" where
  "json_accepts env r =
     (case req_payload r of
        None \<Rightarrow> True
      | Some raw \<Rightarrow>
          if req_media_type r = Some ''application/json''
          then length raw \<le> limit_10kb \<and>
               (raw = [] \<or>
                ((first_char raw = Some CHR ''{'' \<or> first_char raw = Some CHR ''['')
                 \<and> JSON_parse env raw \<noteq> None))
          else True)"

definition urlencoded_accepts :: "request \<Rightarrow> bool" where
  "urlencoded_accepts r =
     (case req_payload r of
        None \<Rightarrow> True
      | Some raw \<Rightarrow>
          if req_media_type r = Some ''application/x-www-form-urlencoded''
          then length raw \<le> limit_10kb \<and> count_list raw CHR ''&'' < 1000
          else True)"

definition parsed_body :: "'db env \<Rightarrow> request \<Rightarrow> json option" where
  "parsed_body env r =
     (case req_payload r of
        None \<Rightarrow> Some (JObject [])
      | Some raw \<Rightarrow>
          if req_media_type r = Some ''application/json''
          then (if raw = [] then Some (JObject []) else JSON_parse env raw)
          else if req_media_type r = Some ''application/x-www-form-urlencoded''
          then (if raw = [] then Some (JObject []) else Some (qs_parse env raw))
          else Some (JObject []))"

text \<open>
  A client is within its quota at an instant when the hit this request adds does not take
  the hits of its window past the maximum.
\<close>

definition within_quota :: "'db env \<Rightarrow> (string \<rightharpoonup> client) \<Rightarrow> string \<Rightarrow> nat \<Rightarrow> bool" where
  "within_quota env st key now =
     (totalHits (fst (increment (window_end env (windowMs limiter_options)) st key now))
        \<le> max_hits limiter_options)"

text \<open>
  Requests are served one after the other, each on the state its predecessor left.
  \<open>let_through\<close> counts the requests of one client that got past the rate limiter: the walk
  of a request the limiter refuses ends with the limiter as the only stage visited.
\<close>

fun state_after :: "'db env \<Rightarrow> 'db server_state \<Rightarrow> (nat \<times> request) list \<Rightarrow> 'db server_state" where
  "state_after env w [] = w"
| "state_after env w ((now, r) # evs) = state_after env (world (snd (serve env w now r))) evs"



text \<open>
  An exchange on which no body parser and no cookie parser has worked yet, and the
  exchange the middleware hands to the routes once the gate has let the request through.
\<close>

definition unread :: "'db exchange \<Rightarrow> bool" where
  "unread x = (\<not> body_read x \<and> body x = None \<and> cookies x = None)"

definition routed :: "'db env \<Rightarrow> 'db server_state \<Rightarrow> nat \<Rightarrow> request \<Rightarrow> 'db exchange" where
  "routed env w now r = final (dispatch env (drop 4 (middleware env)) (gated env w now r))"





section \<open>Start and shutdown of the process (lines 20, 103-114)\<close>

text \<open>
  \<^verbatim>\<open>app.listen\<close> binds the listener and logs two lines; the port is \<^verbatim>\<open>process.env.PORT || 8000\<close>
  and the environment name \<^verbatim>\<open>process.env.NODE_ENV || 'development'\<close>. The listener is Node's
  \<^verbatim>\<open>http.Server\<close>. While it has its handle it accepts connections. A connection is open from
  its \<open>Connect\<close> to its \<open>Finish\<close>, which stands for whatever ends it: the peer, or the
  keep-alive timeout of the server. On an open connection a request is in flight from the moment it starts to
  arrive (\<open>Request\<close>) until its response has been sent (\<open>Respond\<close>); a connection with no
  request in flight is idle.

  \<^verbatim>\<open>server.close(cb)\<close> registers \<open>cb\<close> for the next \<^verbatim>\<open>'close'\<close> event and gives the handle up.
  From Node 19 on it first closes the idle connections (\<^verbatim>\<open>closeIdleConnections\<close>); before
  that it leaves every open connection alone: \<open>closes_idle\<close> tells which. The \<^verbatim>\<open>'close'\<close>
  event is emitted once the handle is gone and no connection is open, at the call or when
  the last connection ends. The handler of \<^verbatim>\<open>SIGTERM\<close> logs a line and calls
  \<^verbatim>\<open>server.close\<close> with a callback that logs a second line. The server keeps the process
  alive while it listens or has a connection open.
\<close>

record process_state =
  listening :: bool
  connections :: "nat set"
  in_flight :: "nat set"
  close_callbacks :: nat
  out :: "string list"

datatype signal = Connect nat | Request nat | Respond nat | Finish nat | SIGTERM

definition or_default :: "string option \<Rightarrow> string \<Rightarrow> string" where
  "or_default v d = (case v of None \<Rightarrow> d | Some s \<Rightarrow> if s = [] then d else s)"

definition listen :: "string option \<Rightarrow> string option \<Rightarrow> process_state" where
  "listen PORT NODE_ENV =
     \<lparr>listening = True, connections = {}, in_flight = {}, close_callbacks = 0,
      out = [''Server is running on port '' @ or_default PORT ''8000'',
             ''Environment: '' @ or_default NODE_ENV ''development'']\<rparr>"

definition emitCloseIfDrained :: "process_state \<Rightarrow> process_state" where
  "emitCloseIfDrained s =
     (if \<not> listening s \<and> connections s = {}
      then s\<lparr>close_callbacks := 0,
             out := out s @ replicate (close_callbacks s) ''Process terminated''\<rparr>
      else s)"

definition closeIdleConnections :: "process_state \<Rightarrow> process_state" where
  "closeIdleConnections s = s\<lparr>connections := connections s \<inter> in_flight s\<rparr>"

definition server_close :: "bool \<Rightarrow> process_state \<Rightarrow> process_state" where
  "server_close closes_idle s =
     emitCloseIfDrained
       ((if closes_idle then closeIdleConnections s else s)
          \<lparr>listening := False, close_callbacks := close_callbacks s + 1\<rparr>)"

fun step :: "bool \<Rightarrow> process_state \<Rightarrow> signal \<Rightarrow> process_state" where
  "step closes_idle s (Connect c) =
     (if listening s then s\<lparr>connections := insert c (connections s)\<rparr> else s)"
| "step closes_idle s (Request c) =
     (if c \<in> connections s then s\<lparr>in_flight := insert c (in_flight s)\<rparr> else s)"
| "step closes_idle s (Respond c) = s\<lparr>in_flight := in_flight s - {c}\<rparr>"
| "step closes_idle s (Finish c) =
     emitCloseIfDrained
       (s\<lparr>connections := connections s - {c}, in_flight := in_flight s - {c}\<rparr>)"
| "step closes_idle s SIGTERM =
     server_close closes_idle
       (s\<lparr>out := out s @ [''SIGTERM received. Shutting down gracefully'']\<rparr>)"

fun run :: "bool \<Rightarrow> process_state \<Rightarrow> signal list \<Rightarrow> process_state" where
  "run closes_idle s [] = s"
| "run closes_idle s (e # es) = run closes_idle (step closes_idle s e) es"

definition keeps_alive :: "process_state \<Rightarrow> bool" where
  "keeps_alive s = (listening s \<or> connections s \<noteq> {})"

text \<open>
  Before the signal the server is \<open>serving\<close>: it listens, no callback waits for the close
  event, and the completion line has not been written. After the signal it is \<open>draining\<close>:
  it no longer listens; while a connection is open a callback waits and the completion line
  has not been written; once none is open the line has been written. In both, a request
  is in flight only on an open connection.
\<close>

definition serving :: "process_state \<Rightarrow> bool" where
  "serving s =
     (listening s \<and> in_flight s \<subseteq> connections s \<and> close_callbacks s = 0
      \<and> ''Process terminated'' \<notin> set (out s))"

definition draining :: "process_state \<Rightarrow> bool" where
  "draining s =
     (\<not> listening s \<and> in_flight s \<subseteq> connections s
      \<and> (if connections s = {} then ''Process terminated'' \<in> set (out s)
         else 0 < close_callbacks s \<and> ''Process terminated'' \<notin> set (out s)))"

section \<open>Sample inputs\<close>

text \<open>
  Concrete inputs for evaluating the definitions: an environment whose routers pass every
  request on, whose rate-limit store times each client on its own, whose
  \<^verbatim>\<open>JSON.parse\<close> knows the two texts used below, and whose \<^verbatim>\<open>decodeURIComponent\<close> is the
  decoder above; a server that has
  served nothing; a server on which one client has used up its window; and a plain
  \<^verbatim>\<open>GET /health\<close> from that client.
\<close>

text \<open>
  The sample environment decodes a path the way \<^verbatim>\<open>decodeURIComponent\<close> does, over strings
  of bytes: every \<^verbatim>\<open>%\<close> must be followed by two hexadecimal digits, and the escaped bytes
  outside ASCII must form well-formed UTF-8 sequences, each byte of a sequence escaped.
\<close>

definition hex_digit :: "char \<Rightarrow> nat option" where
  "hex_digit c =
     map_of (zip ''0123456789abcdefABCDEF''
               [0, 1, 2, 3, 4, 5, 6, 7, 8, 9, 10, 11, 12, 13, 14, 15, 10, 11, 12, 13, 14, 15]) c"

datatype token = Literal char | Octet nat

fun tokens :: "string \<Rightarrow> token list option" where
  "tokens [] = Some []"
| "tokens (c # cs) =
     (if c \<noteq> CHR ''%'' then map_option ((#) (Literal c)) (tokens cs)
      else (case cs of
              a # b # rest \<Rightarrow>
                (case hex_digit a of
                   None \<Rightarrow> None
                 | Some h \<Rightarrow>
                     (case hex_digit b of
                        None \<Rightarrow> None
                      | Some l \<Rightarrow> map_option ((#) (Octet (16 * h + l))) (tokens rest)))
            | _ \<Rightarrow> None))"

definition trailing :: "nat \<Rightarrow> bool" where
  "trailing b = (128 \<le> b \<and> b \<le> 191)"

fun well_formed :: "token list \<Rightarrow> bool" where
  "well_formed [Octet a, Octet b] = (194 \<le> a \<and> a \<le> 223 \<and> trailing b)"
| "well_formed [Octet a, Octet b, Octet c] =
     (((a = 224 \<and> 160 \<le> b \<and> b \<le> 191) \<or> (225 \<le> a \<and> a \<le> 236 \<and> trailing b)
       \<or> (a = 237 \<and> 128 \<le> b \<and> b \<le> 159) \<or> (238 \<le> a \<and> a \<le> 239 \<and> trailing b))
      \<and> trailing c)"
| "well_formed [Octet a, Octet b, Octet c, Octet d] =
     (((a = 240 \<and> 144 \<le> b \<and> b \<le> 191) \<or> (241 \<le> a \<and> a \<le> 243 \<and> trailing b)
       \<or> (a = 244 \<and> 128 \<le> b \<and> b \<le> 143))
      \<and> trailing c \<and> trailing d)"
| "well_formed ts = False"

definition sequence_length :: "nat \<Rightarrow> nat" where
  "sequence_length a = (if a < 224 then 2 else if a < 240 then 3 else 4)"

function utf8 :: "token list \<Rightarrow> bool" where
  "utf8 [] = True"
| "utf8 (Literal c # ts) = utf8 ts"
| "utf8 (Octet a # ts) =
     (if a < 128 then utf8 ts
      else well_formed (take (sequence_length a) (Octet a # ts))
           \<and> utf8 (drop (sequence_length a) (Octet a # ts)))"
  by pat_completeness auto

termination utf8
  by (relation "measure length") (auto simp: sequence_length_def)

fun byte :: "token \<Rightarrow> char" where
  "byte (Literal c) = c"
| "byte (Octet b) = char_of b"

definition percent_decode :: "string \<Rightarrow> string option" where
  "percent_decode s =
     (case tokens s of
        None \<Rightarrow> None
      | Some ts \<Rightarrow> if utf8 ts then Some (map byte ts) else None)"

definition sample_env :: "nat env" where
  "sample_env =
     \<lparr>sequenceRoutes = (\<lambda>x. PassOn (database (world x))),
      authRoutes = (\<lambda>x. PassOn (database (world x))),
      helmet_headers = [''X-Content-Type-Options'' \<mapsto> HStr ''nosniff''],
      window_end = (\<lambda>ms now. now + ms),
      JSON_parse = (\<lambda>s. if s = ''1'' then Some (JNumber 1)
                        else if s = ''{}'' then Some (JObject []) else None),
      qs_parse = (\<lambda>s. JObject []),
      cookie_parse = (\<lambda>s. []),
      decodeURIComponent = percent_decode\<rparr>"

definition idle :: "nat server_state" where
  "idle = \<lparr>rl_store = Map.empty, stdout = [], database = 0\<rparr>"

definition exhausted :: "nat server_state" where
  "exhausted =
     \<lparr>rl_store = [''203.0.113.7'' \<mapsto> \<lparr>totalHits = 100, resetTime = 900000\<rparr>],
      stdout = [], database = 0\<rparr>"

definition probe :: request where
  "probe =
     \<lparr>req_method = GET, req_path = ''/health'', req_ip = ''203.0.113.7'', req_origin = None,
      req_cookie = None, req_media_type = None, req_payload = None\<rparr>"

section \<open>General facts about walks\<close>

lemma decode_param_cases:
  "decode_param env p = Inl e \<Longrightarrow> e = decode_failure p"
  by (simp add: decode_param_def split: if_splits option.splits)

lemma layer_matches_simps [simp]:
  "layer_matches env AnyPath r = Matched"
  "layer_matches env (Mounted mnt) r
     = (if mount_matches mnt (req_path r) then Matched else Unmatched)"
  "pat \<noteq> ''*'' \<Longrightarrow> layer_matches env (RouteOf m pat) r
     = (if route_path_matches pat (req_path r) \<and> handles_method m (req_method r)
        then Matched else Unmatched)"
  "layer_matches env (RouteOf m ''*'') r
     = (if decodable env (req_path r)
        then (if handles_method m (req_method r) then Matched else Unmatched)
        else MatchError (decode_failure (req_path r)))"
  by (auto simp: layer_matches_def decodable_def dest: decode_param_cases split: sum.splits)

lemma proceed_eq: "proceed env ls oc = (if passed oc then dispatch env ls (final oc) else oc)"
  by (cases oc) simp_all

lemma dispatch_step:
  "dispatch env (Layer s m h # ls) x =
     (case layer_matches env m (request x) of
        Matched \<Rightarrow> proceed env ls (h (x\<lparr>visited := visited x @ [s]\<rparr>))
      | Unmatched \<Rightarrow> dispatch env ls x
      | MatchError e \<Rightarrow> NextErr e x)"
  by (cases "h (x\<lparr>visited := visited x @ [s]\<rparr>)") (simp_all split: match.splits)

lemma dispatch_append: "dispatch env (ls1 @ ls2) x = proceed env ls2 (dispatch env ls1 x)"
proof (induction ls1 arbitrary: x)
  case Nil
  show ?case by simp
next
  case (Cons l ls1)
  obtain s m h where l: "l = Layer s m h" by (cases l)
  show ?case
    unfolding l using Cons.IH by (simp split: outcome.splits match.splits)
qed

lemma dispatch_preserves:
  assumes hs: "\<And>l. l \<in> set ls \<Longrightarrow> preserves f (handler_of l)"
    and blind: "\<And>x v. f (x\<lparr>visited := v\<rparr>) = f x"
  shows "f (final (dispatch env ls x)) = f x"
  using hs
proof (induction ls arbitrary: x)
  case Nil
  show ?case by simp
next
  case (Cons l ls)
  obtain s m h where l: "l = Layer s m h" by (cases l)
  have ph: "preserves f h" using Cons.prems[of l] by (simp add: l)
  have IH: "\<And>y. f (final (dispatch env ls y)) = f y"
    using Cons.IH Cons.prems by simp
  let ?x = "x\<lparr>visited := visited x @ [s]\<rparr>"
  have hx: "f (final (h ?x)) = f x"
    using ph blind by (simp add: preserves_def)
  show ?case
  proof (cases "layer_matches env m (request x)")
    case Unmatched
    then show ?thesis using IH by (simp add: l)
  next
    case (MatchError e)
    then show ?thesis by (simp add: l)
  next
    case Matched
    then show ?thesis using IH hx by (cases "h ?x") (simp_all add: l)
  qed
qed

text \<open>
  A stack is quiet for a request when the path test of none of its layers fails.
\<close>

lemma dispatch_visited:
  assumes "\<And>l. l \<in> set ls \<Longrightarrow> framed (handler_of l)"
    and "\<And>l e. l \<in> set ls \<Longrightarrow> layer_matches env (matcher_of l) (request x) \<noteq> MatchError e"
  shows "\<exists>k. visited (final (dispatch env ls x)) = visited x @ take k (matching env ls (request x))
             \<and> (matching env ls (request x) = [] \<or> 0 < k)"
  using assms
proof (induction ls arbitrary: x)
  case Nil
  show ?case by (simp add: matching_def)
next
  case (Cons l ls)
  obtain s m h where l: "l = Layer s m h" by (cases l)
  have fh: "framed h" using Cons.prems(1)[of l] by (simp add: l)
  let ?x = "x\<lparr>visited := visited x @ [s]\<rparr>"
  have hx: "request (final (h ?x)) = request x" "visited (final (h ?x)) = visited x @ [s]"
    using fh by (simp_all add: framed_def preserves_def)
  have IH: "\<exists>k. visited (final (dispatch env ls y)) = visited y @ take k (matching env ls (request y))
                     \<and> (matching env ls (request y) = [] \<or> 0 < k)"
    if "request y = request x" for y
    using Cons.IH[of y] Cons.prems that by simp
  show ?case
  proof (cases "layer_matches env m (request x)")
    case Unmatched
    then show ?thesis using IH[of x] by (simp add: l matching_def)
  next
    case (MatchError e)
    then show ?thesis using Cons.prems(2)[of l e] by (simp add: l)
  next
    case Matched
    have m: "matching env (Layer s m h # ls) (request x) = s # matching env ls (request x)"
      using Matched by (simp add: matching_def)
    show ?thesis
    proof (cases "h ?x")
      case (Next y)
      have "request y = request x" using hx(1) Next by simp
      then obtain k where "visited (final (dispatch env ls y))
                             = visited y @ take k (matching env ls (request y))"
        using IH[of y] by blast
      then have "visited (final (dispatch env (l # ls) x))
                   = visited x @ take (Suc k) (matching env (l # ls) (request x))"
        using Matched Next hx by (simp add: l m)
      then show ?thesis by blast
    next
      case (NextErr e y)
      then have "visited (final (dispatch env (l # ls) x))
                   = visited x @ take (Suc 0) (matching env (l # ls) (request x))"
        using Matched hx by (simp add: l m)
      then show ?thesis by blast
    next
      case (Sent r y)
      then have "visited (final (dispatch env (l # ls) x))
                   = visited x @ take (Suc 0) (matching env (l # ls) (request x))"
        using Matched hx by (simp add: l m)
      then show ?thesis by blast
    qed
  qed
qed

lemma dispatch_passed_visited:
  assumes "\<And>l. l \<in> set ls \<Longrightarrow> framed (handler_of l)" and "passed (dispatch env ls x)"
  shows "visited (final (dispatch env ls x)) = visited x @ matching env ls (request x)"
  using assms
proof (induction ls arbitrary: x)
  case Nil
  then show ?case by (simp add: matching_def)
next
  case (Cons l ls)
  obtain s m h where l: "l = Layer s m h" by (cases l)
  have fh: "framed h" using Cons.prems(1)[of l] by (simp add: l)
  let ?x = "x\<lparr>visited := visited x @ [s]\<rparr>"
  have hx: "request (final (h ?x)) = request x" "visited (final (h ?x)) = visited x @ [s]"
    using fh by (simp_all add: framed_def preserves_def)
  show ?case
  proof (cases "layer_matches env m (request x)")
    case Unmatched
    then have "passed (dispatch env ls x)" using Cons.prems(2) by (simp add: l)
    then show ?thesis using Cons.IH[of x] Cons.prems(1) Unmatched by (simp add: l matching_def)
  next
    case (MatchError e)
    then show ?thesis using Cons.prems(2) by (simp add: l)
  next
    case Matched
    then obtain y where y: "h ?x = Next y" "passed (dispatch env ls y)"
      using Cons.prems(2) by (cases "h ?x") (simp_all add: l)
    have "visited (final (dispatch env ls y)) = visited y @ matching env ls (request y)"
      using Cons.IH[of y] Cons.prems(1) y(2) by simp
    then show ?thesis using y(1) hx Matched by (simp add: l matching_def)
  qed
qed





section \<open>What each handler does to the exchange\<close>

lemma final_send: "final (send st hs b x) = x"
  by (simp add: send_def)

lemma final_res_json: "final (res_json st j x) = x"
  by (simp add: res_json_def final_send)

lemma final_res_send: "final (res_send st msg x) = x"
  by (simp add: res_send_def final_send)

lemma final_limiter:
  "final (limiter env x) =
     x\<lparr>res_headers := standard_headers 100 (clock x)
          (fst (increment (window_end env 900000) (rl_store (world x)) (req_ip (request x)) (clock x))) (res_headers x),
       world := (world x)\<lparr>rl_store :=
          snd (increment (window_end env 900000) (rl_store (world x)) (req_ip (request x)) (clock x))\<rparr>\<rparr>"
  by (simp add: limiter_def rateLimit_def limiter_options_def final_res_send Let_def split: prod.splits)

lemma limiter_eq:
  "limiter env x =
     (if within_quota env (rl_store (world x)) (req_ip (request x)) (clock x)
      then Next (final (limiter env x))
      else res_send 429 ''Too many requests, please try again later.'' (final (limiter env x)))"
  by (simp add: limiter_def rateLimit_def limiter_options_def within_quota_def final_res_send
      Let_def split: prod.splits)

lemma final_helmet: "final (helmet env x) = x\<lparr>res_headers := res_headers x ++ helmet_headers env\<rparr>"
  by (simp add: helmet_def)

lemma origin_callback_cases:
  "origin_callback org = Allowed \<or> origin_callback org = Refused (Error ''Not allowed by CORS'')"
  by (simp add: origin_callback_def)

lemma indexOf_ge: "- 1 \<le> indexOf xs a"
  by (induction xs) (auto simp: Let_def)

lemma indexOf_iff: "indexOf xs a \<noteq> - 1 \<longleftrightarrow> a \<in> set xs"
proof (induction xs)
  case Nil
  show ?case by simp
next
  case (Cons y ys)
  have "indexOf ys a + 1 \<noteq> - 1" using indexOf_ge[of ys a] by arith
  then show ?case using Cons by (auto simp: Let_def)
qed

lemma origin_callback_Allowed_iff:
  "origin_callback org = Allowed \<longleftrightarrow>
     org = None \<or> org = Some [] \<or> org = Some ''http://localhost:5173''
     \<or> org = Some ''https://salesfrontend-eight.vercel.app''"
  by (cases org) (auto simp: origin_callback_def falsy_def indexOf_iff allowedOrigins_def)

lemma cors_eq:
  "cors corsOptions x =
     (if origin_callback (req_origin (request x)) = Allowed
      then (if req_method (request x) = OPTIONS
            then Sent \<lparr>status = 200, headers = preflight_headers (req_origin (request x)) (res_headers x),
                       payload = NoBody\<rparr>
                   (x\<lparr>res_headers := preflight_headers (req_origin (request x)) (res_headers x)\<rparr>)
            else Next (x\<lparr>res_headers := cors_headers (req_origin (request x)) (res_headers x)\<rparr>))
      else NextErr (Error ''Not allowed by CORS'') x)"
  using origin_callback_cases[of "req_origin (request x)"]
  by (auto simp: cors_def cors_headers_def preflight_headers_def Let_def corsOptions_def)

lemma final_cors:
  "world (final (cors opts x)) = world x"
  "body (final (cors opts x)) = body x"
  by (simp_all add: cors_def Let_def split: origin_decision.splits)

lemma final_express_json:
  "world (final (express_json env n x)) = world x"
  "res_headers (final (express_json env n x)) = res_headers x"
  "cookies (final (express_json env n x)) = cookies x"
  by (simp_all add: express_json_def Let_def split: option.splits)

lemma final_cookieParser:
  "world (final (cookieParser env x)) = world x"
  "res_headers (final (cookieParser env x)) = res_headers x"
  "body (final (cookieParser env x)) = body x"
  "body_read (final (cookieParser env x)) = body_read x"
  by (simp_all add: cookieParser_def split: option.splits)

lemma passed_cookieParser: "passed (cookieParser env x)"
  by (simp add: cookieParser_def split: option.splits)

lemma final_express_urlencoded:
  "world (final (express_urlencoded env n x)) = world x"
  "res_headers (final (express_urlencoded env n x)) = res_headers x"
  "cookies (final (express_urlencoded env n x)) = cookies x"
  by (simp_all add: express_urlencoded_def Let_def split: option.splits)

lemma final_logger:
  "final (logger x) =
     x\<lparr>world := (world x)\<lparr>stdout := stdout (world x) @
        [method_name (req_method (request x)) @ '' '' @ req_path (request x) @ '' - ''
           @ toISOString (clock x)]\<rparr>\<rparr>"
  by (simp add: logger_def console_log_def)

lemma passed_logger: "passed (logger x)"
  by (simp add: logger_def)


lemma final_health: "final (health x) = x"
  by (simp add: health_def final_res_json)

lemma final_notFound: "final (notFound x) = x"
  by (simp add: notFound_def final_res_json)

lemma framed_limiter: "framed (limiter env)"
  by (simp add: framed_def preserves_def final_limiter)

lemma framed_helmet: "framed (helmet env)"
  by (simp add: framed_def preserves_def final_helmet)

lemma framed_cors: "framed (cors opts)"
  by (simp add: framed_def preserves_def cors_def Let_def split: origin_decision.splits)

lemma framed_express_json: "framed (express_json env n)"
  by (simp add: framed_def preserves_def express_json_def Let_def split: option.splits)

lemma framed_cookieParser: "framed (cookieParser env)"
  by (simp add: framed_def preserves_def cookieParser_def split: option.splits)

lemma framed_express_urlencoded: "framed (express_urlencoded env n)"
  by (simp add: framed_def preserves_def express_urlencoded_def Let_def split: option.splits)

lemma framed_logger: "framed logger"
  by (simp add: framed_def preserves_def final_logger)

lemma framed_mounted: "framed (mounted rt)"
  by (simp add: framed_def preserves_def mounted_def split: router_result.splits)

lemma framed_health: "framed health"
  by (simp add: framed_def preserves_def final_health)

lemma framed_notFound: "framed notFound"
  by (simp add: framed_def preserves_def final_notFound)

lemmas framed_handlers = framed_limiter framed_helmet framed_cors framed_express_json
  framed_cookieParser framed_express_urlencoded framed_logger framed_mounted framed_health
  framed_notFound

lemma framed_middleware: "l \<in> set (middleware env) \<Longrightarrow> framed (handler_of l)"
  by (auto simp: middleware_def framed_handlers)

lemma framed_routes: "l \<in> set (routes env) \<Longrightarrow> framed (handler_of l)"
  by (auto simp: routes_def framed_handlers)


text \<open>The body parsers: when they pass a request on, and what they leave in \<^verbatim>\<open>req.body\<close>.\<close>

lemma express_json_passed:
  "\<not> body_read x \<Longrightarrow> passed (express_json env limit_10kb x) = json_accepts env (request x)"
  by (auto simp: express_json_def json_accepts_def Let_def split: option.splits)

lemma express_json_body:
  assumes "\<not> body_read x" "body x = None" "passed (express_json env limit_10kb x)"
  shows "body (final (express_json env limit_10kb x)) =
           (if req_media_type (request x) = Some ''application/json''
            then parsed_body env (request x) else Some (JObject []))"
    and "body_read (final (express_json env limit_10kb x)) =
           (req_payload (request x) \<noteq> None \<and> req_media_type (request x) = Some ''application/json'')"
  using assms
  by (auto simp: express_json_def parsed_body_def body_or_empty_def Let_def
      split: option.splits if_splits)


lemma express_urlencoded_passed:
  "passed (express_urlencoded env limit_10kb x) = (body_read x \<or> urlencoded_accepts (request x))"
  by (auto simp: express_urlencoded_def urlencoded_accepts_def Let_def split: option.splits)

lemma express_urlencoded_body:
  assumes "passed (express_urlencoded env limit_10kb x)"
    and "\<not> body_read x \<Longrightarrow> body x = Some (JObject [])"
  shows "body (final (express_urlencoded env limit_10kb x)) =
           (if body_read x then body x
            else if req_media_type (request x) = Some ''application/x-www-form-urlencoded''
            then parsed_body env (request x) else Some (JObject []))"
  using assms
  by (auto simp: express_urlencoded_def parsed_body_def body_or_empty_def Let_def
      split: option.splits if_splits)


section \<open>The walk through the middleware of this application\<close>

lemma snd_finalhandler: "snd (finalhandler oc) = final oc"
  by (cases oc) simp_all

lemma snd_serve: "snd (serve env w now r) = final (dispatch env (app env) (arrive w now r))"
  by (simp add: serve_def snd_finalhandler)

lemma arrive_simps:
  "request (arrive w now r) = r" "clock (arrive w now r) = now" "world (arrive w now r) = w"
  "visited (arrive w now r) = []" "res_headers (arrive w now r) = Map.empty"
  "body (arrive w now r) = None" "body_read (arrive w now r) = False"
  "cookies (arrive w now r) = None"
  by (simp_all add: arrive_def)

lemma counted_simps:
  "request (counted env w now r) = r" "clock (counted env w now r) = now"
  "visited (counted env w now r) = [RateLimiter]"
  "body (counted env w now r) = None" "body_read (counted env w now r) = False"
  "cookies (counted env w now r) = None"
  "world (counted env w now r) = w\<lparr>rl_store := snd (increment (window_end env 900000) (rl_store w) (req_ip r) now)\<rparr>"
  "res_headers (counted env w now r)
     = standard_headers 100 now (fst (increment (window_end env 900000) (rl_store w) (req_ip r) now)) Map.empty"
  by (simp_all add: counted_def final_limiter arrive_simps)

lemma secured_simps:
  "request (secured env w now r) = r" "clock (secured env w now r) = now"
  "visited (secured env w now r) = [RateLimiter, SecurityHeaders, CorsGate]"
  "body (secured env w now r) = None" "body_read (secured env w now r) = False"
  "cookies (secured env w now r) = None"
  "world (secured env w now r) = w\<lparr>rl_store := snd (increment (window_end env 900000) (rl_store w) (req_ip r) now)\<rparr>"
  "res_headers (secured env w now r) = res_headers (counted env w now r) ++ helmet_headers env"
  by (simp_all add: secured_def counted_simps)

lemma gated_simps:
  "request (gated env w now r) = r" "clock (gated env w now r) = now"
  "visited (gated env w now r) = [RateLimiter, SecurityHeaders, CorsGate]"
  "body (gated env w now r) = None" "body_read (gated env w now r) = False"
  "cookies (gated env w now r) = None"
  "world (gated env w now r) = w\<lparr>rl_store := snd (increment (window_end env 900000) (rl_store w) (req_ip r) now)\<rparr>"
  "res_headers (gated env w now r) = cors_headers (req_origin r) (res_headers (secured env w now r))"
  by (simp_all add: gated_def secured_simps)

text \<open>
  The stack is unfolded one layer at a time, over any continuation \<open>rest\<close>: the empty one
  for the middleware alone, the routes for the whole application.
\<close>

lemma stack_unfold:
  "middleware env @ rest = Layer RateLimiter AnyPath (limiter env) # (drop (Suc 0) (middleware env) @ rest)"
  "drop (Suc 0) (middleware env) @ rest
     = Layer SecurityHeaders AnyPath (helmet env) # (drop 2 (middleware env) @ rest)"
  "drop 2 (middleware env) @ rest
     = Layer CorsGate AnyPath (cors corsOptions) # (drop 3 (middleware env) @ rest)"
  "drop 3 (middleware env) @ rest
     = Layer CorsPreflight (RouteOf OPTIONS ''*'') (cors corsOptions) # (drop 4 (middleware env) @ rest)"
  "drop 4 (middleware env) @ rest
     = Layer JsonBodyParser AnyPath (express_json env limit_10kb) # (drop 5 (middleware env) @ rest)"
  "drop 5 (middleware env) @ rest
     = Layer CookieParser AnyPath (cookieParser env) # (drop 6 (middleware env) @ rest)"
  "drop 6 (middleware env) @ rest
     = Layer UrlencodedBodyParser AnyPath (express_urlencoded env limit_10kb)
         # (drop 7 (middleware env) @ rest)"
  "drop 7 (middleware env) @ rest = Layer RequestLogger AnyPath logger # rest"
  by (simp_all add: middleware_def)

lemma walk_limiter:
  "dispatch env (middleware env @ rest) (arrive w now r) =
     (if within_quota env (rl_store w) (req_ip r) now
      then dispatch env (drop (Suc 0) (middleware env) @ rest) (counted env w now r)
      else res_send 429 ''Too many requests, please try again later.'' (counted env w now r))"
proof -
  let ?x = "(arrive w now r)\<lparr>visited := [RateLimiter]\<rparr>"
  have "dispatch env (middleware env @ rest) (arrive w now r)
          = proceed env (drop (Suc 0) (middleware env) @ rest) (limiter env ?x)"
    by (subst stack_unfold(1), subst dispatch_step) (simp add: arrive_simps)
  also have "\<dots> = (if within_quota env (rl_store w) (req_ip r) now
      then dispatch env (drop (Suc 0) (middleware env) @ rest) (counted env w now r)
      else res_send 429 ''Too many requests, please try again later.'' (counted env w now r))"
    by (subst limiter_eq) (simp add: arrive_simps counted_def res_send_def send_def)
  finally show ?thesis .
qed

lemma walk_gate:
  "dispatch env (drop (Suc 0) (middleware env) @ rest) (counted env w now r) =
     (if origin_callback (req_origin r) = Allowed
      then (if req_method r = OPTIONS
            then Sent \<lparr>status = 200,
                       headers = preflight_headers (req_origin r) (res_headers (secured env w now r)),
                       payload = NoBody\<rparr>
                   ((secured env w now r)\<lparr>res_headers :=
                       preflight_headers (req_origin r) (res_headers (secured env w now r))\<rparr>)
            else if decodable env (req_path r)
            then dispatch env (drop 4 (middleware env) @ rest) (gated env w now r)
            else NextErr (decode_failure (req_path r)) (gated env w now r))
      else NextErr (Error ''Not allowed by CORS'') (secured env w now r))"
proof -
  have 1: "dispatch env (drop (Suc 0) (middleware env) @ rest) (counted env w now r)
             = proceed env (drop 3 (middleware env) @ rest) (cors corsOptions (secured env w now r))"
    by (subst stack_unfold(2), subst dispatch_step, simp add: helmet_def,
        subst stack_unfold(3), subst dispatch_step, simp add: counted_simps secured_def)
  have 2: "req_method r \<noteq> OPTIONS \<Longrightarrow> request x' = r \<Longrightarrow>
             dispatch env (drop 3 (middleware env) @ rest) x'
               = (if decodable env (req_path r)
                  then dispatch env (drop 4 (middleware env) @ rest) x'
                  else NextErr (decode_failure (req_path r)) x')"
    for x' :: "'a exchange"
    by (subst stack_unfold(4), subst dispatch_step) (simp add: handles_method_def)
  show ?thesis
    unfolding 1
    by (subst cors_eq) (simp add: secured_simps gated_def 2)
qed

text \<open>
  The four stages after the gate, for an exchange on which no body was read yet.
\<close>

lemma walk_parsers_passed:
  assumes "unread x"
  shows "passed (dispatch env (drop 4 (middleware env)) x)
           = (json_accepts env (request x) \<and> urlencoded_accepts (request x))"
proof -
  let ?xj = "x\<lparr>visited := visited x @ [JsonBodyParser]\<rparr>"
  let ?J = "express_json env limit_10kb ?xj"
  let ?xc = "(final ?J)\<lparr>visited := visited (final ?J) @ [CookieParser]\<rparr>"
  let ?C = "cookieParser env ?xc"
  let ?xu = "(final ?C)\<lparr>visited := visited (final ?C) @ [UrlencodedBodyParser]\<rparr>"
  let ?U = "express_urlencoded env limit_10kb ?xu"
  have unread: "\<not> body_read ?xj" "body ?xj = None" "request ?xj = request x"
    using assms by (simp_all add: unread_def)
  have pj: "passed ?J = json_accepts env (request x)"
    using express_json_passed[of ?xj env] unread by simp
  have rq: "request ?xu = request x"
    using framed_express_json[of env limit_10kb] framed_cookieParser[of env]
    by (simp add: framed_def preserves_def)
  have br: "passed ?J \<Longrightarrow> body_read ?xu
              = (req_payload (request x) \<noteq> None \<and> req_media_type (request x) = Some ''application/json'')"
    using express_json_body(2)[of ?xj env] unread by (simp add: final_cookieParser)
  have pu: "passed ?J \<Longrightarrow> passed ?U = urlencoded_accepts (request x)"
    using br rq by (auto simp: express_urlencoded_passed urlencoded_accepts_def split: option.splits)
  have "dispatch env (drop 4 (middleware env)) x
          = (if passed ?J then (if passed ?U then
               dispatch env [] (final (logger ((final ?U)\<lparr>visited := visited (final ?U) @ [RequestLogger]\<rparr>)))
               else ?U) else ?J)"
    using stack_unfold(5-8)[of env "[]"]
    by (simp add: dispatch_step proceed_eq passed_cookieParser passed_logger del: dispatch.simps)
  then show ?thesis using pj pu by simp
qed

lemma parsers_preserve_headers:
  "l \<in> set (drop 4 (middleware env)) \<Longrightarrow> preserves res_headers (handler_of l)"
  by (auto simp: middleware_def preserves_def final_express_json final_cookieParser
      final_express_urlencoded final_logger)

lemma parsers_preserve_store:
  "l \<in> set (drop 4 (middleware env)) \<Longrightarrow> preserves (\<lambda>x. rl_store (world x)) (handler_of l)"
  by (auto simp: middleware_def preserves_def final_express_json final_cookieParser
      final_express_urlencoded final_logger)

lemma parsers_preserve_database:
  "l \<in> set (drop 4 (middleware env)) \<Longrightarrow> preserves (\<lambda>x. database (world x)) (handler_of l)"
  by (auto simp: middleware_def preserves_def final_express_json final_cookieParser
      final_express_urlencoded final_logger)

lemma parsers_framed: "l \<in> set (drop 4 (middleware env)) \<Longrightarrow> framed (handler_of l)"
  using framed_middleware[of l env] by (auto dest: in_set_dropD)

lemma quiet_after_gate:
  "l \<in> set (drop 4 (middleware env) @ routes env)
     \<Longrightarrow> layer_matches env (matcher_of l) r \<noteq> MatchError e"
  by (auto simp: middleware_def routes_def split: if_splits)

lemma walk_parsers_final:
  "res_headers (final (dispatch env (drop 4 (middleware env)) x)) = res_headers x"
  "rl_store (world (final (dispatch env (drop 4 (middleware env)) x))) = rl_store (world x)"
  "database (world (final (dispatch env (drop 4 (middleware env)) x))) = database (world x)"
  "request (final (dispatch env (drop 4 (middleware env)) x)) = request x"
  "clock (final (dispatch env (drop 4 (middleware env)) x)) = clock x"
proof -
  show "res_headers (final (dispatch env (drop 4 (middleware env)) x)) = res_headers x"
    by (rule dispatch_preserves) (simp_all add: parsers_preserve_headers)
  show "rl_store (world (final (dispatch env (drop 4 (middleware env)) x))) = rl_store (world x)"
    by (rule dispatch_preserves[where f = "\<lambda>x. rl_store (world x)"])
       (simp_all add: parsers_preserve_store)
  show "database (world (final (dispatch env (drop 4 (middleware env)) x))) = database (world x)"
    by (rule dispatch_preserves[where f = "\<lambda>x. database (world x)"])
       (simp_all add: parsers_preserve_database)
  have fr: "\<And>l. l \<in> set (drop 4 (middleware env)) \<Longrightarrow> preserves request (handler_of l)"
    "\<And>l. l \<in> set (drop 4 (middleware env)) \<Longrightarrow> preserves clock (handler_of l)"
    using parsers_framed by (auto simp: framed_def)
  show "request (final (dispatch env (drop 4 (middleware env)) x)) = request x"
    by (rule dispatch_preserves) (simp_all add: fr)
  show "clock (final (dispatch env (drop 4 (middleware env)) x)) = clock x"
    by (rule dispatch_preserves) (simp_all add: fr)
qed

lemma matching_parsers:
  "matching env (drop 4 (middleware env)) r
     = [JsonBodyParser, CookieParser, UrlencodedBodyParser, RequestLogger]"
  by (simp add: matching_def middleware_def)

lemma walk_parsers_visited:
  assumes "passed (dispatch env (drop 4 (middleware env)) x)"
  shows "visited (final (dispatch env (drop 4 (middleware env)) x))
           = visited x @ [JsonBodyParser, CookieParser, UrlencodedBodyParser, RequestLogger]"
  using dispatch_passed_visited[OF parsers_framed assms] by (simp add: matching_parsers)

lemma walk_parsers_body:
  assumes "unread x" "passed (dispatch env (drop 4 (middleware env)) x)"
  shows "body (final (dispatch env (drop 4 (middleware env)) x)) = parsed_body env (request x)"
proof -
  let ?xj = "x\<lparr>visited := visited x @ [JsonBodyParser]\<rparr>"
  let ?J = "express_json env limit_10kb ?xj"
  let ?xc = "(final ?J)\<lparr>visited := visited (final ?J) @ [CookieParser]\<rparr>"
  let ?C = "cookieParser env ?xc"
  let ?xu = "(final ?C)\<lparr>visited := visited (final ?C) @ [UrlencodedBodyParser]\<rparr>"
  let ?U = "express_urlencoded env limit_10kb ?xu"
  let ?xl = "(final ?U)\<lparr>visited := visited (final ?U) @ [RequestLogger]\<rparr>"
  have unread: "\<not> body_read ?xj" "body ?xj = None" "request ?xj = request x"
    using assms(1) by (simp_all add: unread_def)
  have eq: "dispatch env (drop 4 (middleware env)) x
          = (if passed ?J then (if passed ?U then dispatch env [] (final (logger ?xl)) else ?U) else ?J)"
    using stack_unfold(5-8)[of env "[]"]
    by (simp add: dispatch_step proceed_eq passed_cookieParser passed_logger del: dispatch.simps)
  have pj: "passed ?J" and pu: "passed ?U"
    using assms(2) unfolding eq by (auto split: if_splits)
  have rq: "request ?xu = request x"
    using framed_express_json[of env limit_10kb] framed_cookieParser[of env]
    by (simp add: framed_def preserves_def)
  have bj: "body ?xu = (if req_media_type (request x) = Some ''application/json''
                        then parsed_body env (request x) else Some (JObject []))"
    and br: "body_read ?xu
              = (req_payload (request x) \<noteq> None \<and> req_media_type (request x) = Some ''application/json'')"
    using express_json_body[of ?xj env] unread pj by (simp_all add: final_cookieParser)
  have nb: "\<not> body_read ?xu \<Longrightarrow> body ?xu = Some (JObject [])"
    using bj br by (auto simp: parsed_body_def split: option.splits)
  have bu: "body (final ?U) = parsed_body env (request x)"
    using express_urlencoded_body[of env ?xu, OF pu nb] bj br rq
    by (auto simp: parsed_body_def split: option.splits)
  have "body (final (dispatch env (drop 4 (middleware env)) x)) = body (final (logger ?xl))"
    unfolding eq using pj pu by simp
  then show ?thesis using bu by (simp add: final_logger)
qed



text \<open>Which requests the middleware hands on to the routes.\<close>

lemma unread_gated: "unread (gated env w now r)"
  by (simp add: unread_def gated_simps)

lemma admitted_iff:
  "admitted env w now r \<longleftrightarrow>
     within_quota env (rl_store w) (req_ip r) now \<and> origin_callback (req_origin r) = Allowed
     \<and> req_method r \<noteq> OPTIONS \<and> decodable env (req_path r)
     \<and> json_accepts env r \<and> urlencoded_accepts r"
proof -
  have "admitted env w now r
          = (within_quota env (rl_store w) (req_ip r) now \<and> origin_callback (req_origin r) = Allowed
             \<and> req_method r \<noteq> OPTIONS \<and> decodable env (req_path r)
             \<and> passed (dispatch env (drop 4 (middleware env)) (gated env w now r)))"
    using walk_limiter[of env "[]" w now r] walk_gate[of env "[]" w now r]
    by (simp add: admitted_def res_send_def send_def)
  then show ?thesis
    by (simp add: walk_parsers_passed[OF unread_gated] gated_simps)
qed

section \<open>Serving one request, case by case\<close>

lemma serve_over_quota:
  assumes "\<not> within_quota env (rl_store w) (req_ip r) now"
  shows "serve env w now r =
           (\<lparr>status = 429,
             headers = default_type ''text/html; charset=utf-8'' (res_headers (counted env w now r)),
             payload = (if req_method r = HEAD then NoBody
                        else TextBody ''Too many requests, please try again later.'')\<rparr>,
            counted env w now r)"
  using assms by (simp add: serve_def app_def walk_limiter res_send_def send_def counted_simps)

lemma serve_refused_origin:
  assumes "within_quota env (rl_store w) (req_ip r) now" "origin_callback (req_origin r) \<noteq> Allowed"
  shows "serve env w now r =
           (error_response (Error ''Not allowed by CORS'') 500 (secured env w now r),
            secured env w now r)"
  using assms by (simp add: serve_def app_def walk_limiter walk_gate)

lemma serve_preflight:
  assumes "within_quota env (rl_store w) (req_ip r) now" "origin_callback (req_origin r) = Allowed"
    "req_method r = OPTIONS"
  shows "serve env w now r =
           (\<lparr>status = 200,
             headers = preflight_headers (req_origin r) (res_headers (secured env w now r)),
             payload = NoBody\<rparr>,
            (secured env w now r)\<lparr>res_headers :=
                preflight_headers (req_origin r) (res_headers (secured env w now r))\<rparr>)"
  using assms by (simp add: serve_def app_def walk_limiter walk_gate)

lemma serve_undecodable:
  assumes "within_quota env (rl_store w) (req_ip r) now" "origin_callback (req_origin r) = Allowed"
    "req_method r \<noteq> OPTIONS" "\<not> decodable env (req_path r)"
  shows "serve env w now r =
           (error_response (decode_failure (req_path r)) 400 (gated env w now r),
            gated env w now r)"
  using assms by (simp add: serve_def app_def walk_limiter walk_gate decode_failure_def)

lemma walk_past_gate:
  assumes "within_quota env (rl_store w) (req_ip r) now" "origin_callback (req_origin r) = Allowed"
    "req_method r \<noteq> OPTIONS" "decodable env (req_path r)"
  shows "dispatch env (app env) (arrive w now r)
           = proceed env (routes env) (dispatch env (drop 4 (middleware env)) (gated env w now r))"
proof -
  have "dispatch env (app env) (arrive w now r)
          = dispatch env (drop 4 (middleware env) @ routes env) (gated env w now r)"
    using assms by (simp add: app_def walk_limiter walk_gate)
  then show ?thesis by (simp add: dispatch_append)
qed


lemma serve_admitted:
  assumes "admitted env w now r"
  shows "serve env w now r = finalhandler (dispatch env (routes env) (routed env w now r))"
proof -
  have a: "within_quota env (rl_store w) (req_ip r) now" "origin_callback (req_origin r) = Allowed"
    "req_method r \<noteq> OPTIONS" "decodable env (req_path r)"
    "json_accepts env r \<and> urlencoded_accepts r"
    using assms by (simp_all add: admitted_iff)
  have "passed (dispatch env (drop 4 (middleware env)) (gated env w now r))"
    using a(5) by (simp add: walk_parsers_passed[OF unread_gated] gated_simps)
  then show ?thesis
    using a(1-4) by (simp add: serve_def walk_past_gate proceed_eq routed_def)
qed

lemma routed_simps:
  "request (routed env w now r) = r"
  "clock (routed env w now r) = now"
  "res_headers (routed env w now r) = cors_headers (req_origin r) (res_headers (secured env w now r))"
  "rl_store (world (routed env w now r)) = snd (increment (window_end env 900000) (rl_store w) (req_ip r) now)"
  "database (world (routed env w now r)) = database w"
  by (simp_all add: routed_def walk_parsers_final gated_simps)

lemma routed_admitted:
  assumes "admitted env w now r"
  shows "visited (routed env w now r) = pipeline_order"
    and "body (routed env w now r) = parsed_body env r"
proof -
  have p: "passed (dispatch env (drop 4 (middleware env)) (gated env w now r))"
    using assms by (simp add: admitted_iff walk_parsers_passed[OF unread_gated] gated_simps)
  show "visited (routed env w now r) = pipeline_order"
    using walk_parsers_visited[OF p] by (simp add: routed_def gated_simps pipeline_order_def)
  show "body (routed env w now r) = parsed_body env r"
    using walk_parsers_body[OF unread_gated p] by (simp add: routed_def gated_simps)
qed

text \<open>The routes, for a request that neither mounted router claims.\<close>

lemma length_lower: "length (lower s) = length s"
  by (simp add: lower_def)

lemma health_path_not_mounted:
  assumes "route_path_matches ''/health'' p"
  shows "\<not> mount_matches ''/api/v1/email'' p \<and> \<not> mount_matches ''/api/v1/auth'' p"
proof -
  have "lower p = lower ''/health'' \<or> lower p = lower ''/health'' @ ''/''"
    using assms by (simp add: route_path_matches_def)
  then have "length (lower p) = length (lower ''/health'')
             \<or> length (lower p) = length (lower ''/health'' @ ''/'')"
    by auto
  then have short: "length p \<le> 8"
    by (auto simp: length_lower)
  have "length (lower (take (length ''/api/v1/email'') p)) \<noteq> length (lower ''/api/v1/email'')"
    and "length (lower (take (length ''/api/v1/auth'') p)) \<noteq> length (lower ''/api/v1/auth'')"
    using short by (simp_all add: length_lower)
  then have "lower (take (length ''/api/v1/email'') p) \<noteq> lower ''/api/v1/email''"
    and "lower (take (length ''/api/v1/auth'') p) \<noteq> lower ''/api/v1/auth''"
    by fastforce+
  then show ?thesis unfolding mount_matches_def by blast
qed

lemma walk_routes_unmounted:
  assumes "\<not> mount_matches ''/api/v1/email'' (req_path (request x))"
    "\<not> mount_matches ''/api/v1/auth'' (req_path (request x))"
  shows "dispatch env (routes env) x =
           (if handles_method GET (req_method (request x))
               \<and> route_path_matches ''/health'' (req_path (request x))
            then health (x\<lparr>visited := visited x @ [HealthCheck]\<rparr>)
            else notFound (x\<lparr>visited := visited x @ [NotFound]\<rparr>))"
  using assms
  by (simp add: routes_def health_def notFound_def res_json_def send_def)









lemma serve_health:
  assumes "admitted env w now r" "handles_method GET (req_method r)"
    "route_path_matches ''/health'' (req_path r)"
  shows "serve env w now r =
           (\<lparr>status = 200,
             headers = default_type ''application/json; charset=utf-8''
                         (cors_headers (req_origin r) (res_headers (secured env w now r))),
             payload = (if req_method r = HEAD then NoBody
                        else JsonBody (JObject [(''status'', JString ''healthy''),
                                                (''timestamp'', JString (toISOString now))]))\<rparr>,
            (routed env w now r)\<lparr>visited := pipeline_order @ [HealthCheck]\<rparr>)"
proof -
  have nm: "\<not> mount_matches ''/api/v1/email'' (req_path (request (routed env w now r)))"
    "\<not> mount_matches ''/api/v1/auth'' (req_path (request (routed env w now r)))"
    using health_path_not_mounted[OF assms(3)] by (simp_all add: routed_simps)
  show ?thesis
    using assms
    by (simp add: serve_admitted walk_routes_unmounted[OF nm] routed_simps routed_admitted
        health_def res_json_def send_def)
qed

lemma serve_not_found:
  assumes "admitted env w now r"
    "\<not> mount_matches ''/api/v1/email'' (req_path r)" "\<not> mount_matches ''/api/v1/auth'' (req_path r)"
    "\<not> (handles_method GET (req_method r) \<and> route_path_matches ''/health'' (req_path r))"
  shows "serve env w now r =
           (\<lparr>status = 404,
             headers = default_type ''application/json; charset=utf-8''
                         (cors_headers (req_origin r) (res_headers (secured env w now r))),
             payload = (if req_method r = HEAD then NoBody
                        else JsonBody (JObject [(''error'', JString ''Not Found''),
                                                (''path'', JString (req_path r))]))\<rparr>,
            (routed env w now r)\<lparr>visited := pipeline_order @ [NotFound]\<rparr>)"
proof -
  have nm: "\<not> mount_matches ''/api/v1/email'' (req_path (request (routed env w now r)))"
    "\<not> mount_matches ''/api/v1/auth'' (req_path (request (routed env w now r)))"
    using assms(2,3) by (simp_all add: routed_simps)
  have no: "(handles_method GET (req_method r) \<and> route_path_matches ''/health'' (req_path r))
              = False"
    using assms(4) by simp
  show ?thesis
    using assms(1)
    by (simp add: serve_admitted walk_routes_unmounted[OF nm] routed_simps routed_admitted no
        notFound_def res_json_def send_def)
qed



section \<open>Evaluating the samples\<close>

lemma idle_quota: "within_quota env (rl_store idle) ''203.0.113.7'' now"
  by (simp add: within_quota_def increment_def limiter_options_def idle_def Let_def)

lemma exhausted_quota: "now < 900000 \<Longrightarrow> \<not> within_quota env (rl_store exhausted) ''203.0.113.7'' now"
  by (simp add: within_quota_def increment_def limiter_options_def exhausted_def Let_def)

lemma probe_simps:
  "req_method probe = GET" "req_path probe = ''/health''" "req_ip probe = ''203.0.113.7''"
  "req_origin probe = None" "req_cookie probe = None" "req_media_type probe = None"
  "req_payload probe = None"
  by (simp_all add: probe_def)

lemma origins_evaluated:
  "origin_callback None = Allowed"
  "origin_callback (Some []) = Allowed"
  "origin_callback (Some ''http://localhost:5173'') = Allowed"
  "origin_callback (Some ''http://example.com'') = Refused (Error ''Not allowed by CORS'')"
  by (simp_all add: origin_callback_def falsy_def allowedOrigins_def)

lemma no_body_accepted:
  "req_payload r = None \<Longrightarrow> json_accepts env r" "req_payload r = None \<Longrightarrow> urlencoded_accepts r"
  by (simp_all add: json_accepts_def urlencoded_accepts_def)

lemma health_path_evaluated:
  "route_path_matches ''/health'' ''/health''"
  "\<not> route_path_matches ''/health'' ''/unknown/path''"
  "\<not> mount_matches ''/api/v1/email'' ''/unknown/path''"
  "\<not> mount_matches ''/api/v1/auth'' ''/unknown/path''"
  by (simp_all add: route_path_matches_def mount_matches_def lower_def lower_char_def)

lemma sample_decodable:
  "decodable sample_env ''/health''"
  "decodable sample_env ''/unknown/path''"
  "decodable sample_env ''/api/v1/auth/login''"
  "\<not> decodable sample_env ''/%c0''"
  by (simp_all add: decodable_def decode_param_def sample_env_def percent_decode_def
      hex_digit_def sequence_length_def)

text \<open>
  A path without a percent sign decodes to itself, and the paths of the health route have
  none: with this decoder they always get past the path test.
\<close>

lemma tokens_plain: "CHR ''%'' \<notin> set p \<Longrightarrow> tokens p = Some (map Literal p)"
  by (induction p) auto

lemma utf8_plain: "utf8 (map Literal p)"
  by (induction p) auto

lemma percent_decode_plain: "CHR ''%'' \<notin> set p \<Longrightarrow> percent_decode p = Some p"
  by (simp add: percent_decode_def tokens_plain utf8_plain comp_def)

lemma lower_percent: "CHR ''%'' \<in> set p \<Longrightarrow> CHR ''%'' \<in> set (lower p)"
proof -
  have "lower_char CHR ''%'' = CHR ''%''"
    by (simp add: lower_char_def)
  then show "CHR ''%'' \<in> set p \<Longrightarrow> CHR ''%'' \<in> set (lower p)"
    by (force simp: lower_def)
qed

lemma health_path_plain:
  assumes "route_path_matches ''/health'' p"
  shows "CHR ''%'' \<notin> set p"
proof
  assume "CHR ''%'' \<in> set p"
  then have "CHR ''%'' \<in> set (lower p)" by (rule lower_percent)
  moreover have "lower p = ''/health'' \<or> lower p = ''/health/''"
    using assms by (simp add: route_path_matches_def lower_def lower_char_def)
  ultimately show False by auto
qed

lemma health_path_decodable:
  assumes "route_path_matches ''/health'' p" "decodeURIComponent env = percent_decode"
  shows "decodable env p"
  using health_path_plain[OF assms(1)] assms(2)
  by (simp add: decodable_def decode_param_def percent_decode_plain)

lemma probe_admitted:
  assumes "req_ip r = ''203.0.113.7''" "req_origin r = None" "req_payload r = None"
    "req_method r \<noteq> OPTIONS" "decodable env (req_path r)"
  shows "admitted env idle now r"
  using assms by (simp add: admitted_iff idle_quota origins_evaluated no_body_accepted)


section \<open>The health check\<close>




section \<open>Unmatched requests\<close>

text \<open>
  Claim C4, as amended. A request that the middleware hands on to the routes, whose path is
  under neither mount point and which the health route does not answer, gets status 404
  from the catch-all handler, with the JSON body \<^verbatim>\<open>{error: "Not Found", path: p}\<close> where \<open>p\<close> is
  the request path; the answer to a \<^verbatim>\<open>HEAD\<close> request carries the status without a body.
  The middleware hands a request on only if no stage refused it and Express could decode
  its path.
\<close>

theorem not_found:
  assumes "admitted env w now r"
    and "\<not> mount_matches ''/api/v1/email'' (req_path r)"
    and "\<not> mount_matches ''/api/v1/auth'' (req_path r)"
    and "\<not> (handles_method GET (req_method r) \<and> route_path_matches ''/health'' (req_path r))"
  shows "status (fst (serve env w now r)) = 404
       \<and> payload (fst (serve env w now r))
           = (if req_method r = HEAD then NoBody
              else JsonBody (JObject [(''error'', JString ''Not Found''),
                                      (''path'', JString (req_path r))]))
       \<and> visited (snd (serve env w now r)) = pipeline_order @ [NotFound]"
proof -
  note s = serve_not_found[OF assms]
  have answer: "status (fst (serve env w now r)) = 404"
    by (simp add: s)
  have document: "payload (fst (serve env w now r))
           = (if req_method r = HEAD then NoBody
              else JsonBody (JObject [(''error'', JString ''Not Found''),
                                      (''path'', JString (req_path r))]))"
    by (simp add: s)
  have last: "visited (snd (serve env w now r)) = pipeline_order @ [NotFound]"
    by (simp add: s)
  show ?thesis
    using answer document last by simp
qed

text \<open>
  \<^verbatim>\<open>GET /unknown/path\<close> on the idle sample server.
\<close>

theorem not_found_witness:
  "admitted sample_env idle 0 (probe\<lparr>req_path := ''/unknown/path''\<rparr>)
   \<and> \<not> mount_matches ''/api/v1/email'' (req_path (probe\<lparr>req_path := ''/unknown/path''\<rparr>))
   \<and> \<not> mount_matches ''/api/v1/auth'' (req_path (probe\<lparr>req_path := ''/unknown/path''\<rparr>))
   \<and> \<not> route_path_matches ''/health'' (req_path (probe\<lparr>req_path := ''/unknown/path''\<rparr>))
   \<and> status (fst (serve sample_env idle 0 (probe\<lparr>req_path := ''/unknown/path''\<rparr>))) = 404
   \<and> payload (fst (serve sample_env idle 0 (probe\<lparr>req_path := ''/unknown/path''\<rparr>)))
       = JsonBody (JObject [(''error'', JString ''Not Found''),
                            (''path'', JString ''/unknown/path'')])"
proof -
  let ?r = "probe\<lparr>req_path := ''/unknown/path''\<rparr>"
  have a: "admitted sample_env idle 0 ?r"
    by (rule probe_admitted) (simp_all add: probe_simps sample_decodable)
  have b: "\<not> mount_matches ''/api/v1/email'' (req_path ?r)"
    and c: "\<not> mount_matches ''/api/v1/auth'' (req_path ?r)"
    and d: "\<not> route_path_matches ''/health'' (req_path ?r)"
    by (simp_all add: health_path_evaluated)
  have e: "\<not> (handles_method GET (req_method ?r) \<and> route_path_matches ''/health'' (req_path ?r))"
    using d by simp
  show ?thesis
    using not_found[OF a b c e] a b c d by (simp add: probe_simps)
qed

text \<open>
  Claim C4 as stated fails: \<^verbatim>\<open>GET /unknown/path\<close> from an origin outside the allow-list
  never reaches the catch-all handler and is answered with status 500; and \<^verbatim>\<open>GET /%c0\<close>,
  which matches no route either, is answered with status 400 after the CORS gate, because
  the path cannot be decoded.
\<close>

theorem unknown_path_stopped_early:
  "\<not> mount_matches ''/api/v1/email'' ''/unknown/path''
   \<and> \<not> mount_matches ''/api/v1/auth'' ''/unknown/path''
   \<and> \<not> route_path_matches ''/health'' ''/unknown/path''
   \<and> status (fst (serve sample_env idle 0
         (probe\<lparr>req_path := ''/unknown/path'', req_origin := Some ''http://example.com''\<rparr>))) = 500
   \<and> NotFound \<notin> set (visited (snd (serve sample_env idle 0
         (probe\<lparr>req_path := ''/unknown/path'', req_origin := Some ''http://example.com''\<rparr>))))
   \<and> \<not> mount_matches ''/api/v1/email'' ''/%c0''
   \<and> \<not> mount_matches ''/api/v1/auth'' ''/%c0''
   \<and> \<not> route_path_matches ''/health'' ''/%c0''
   \<and> origin_callback (req_origin (probe\<lparr>req_path := ''/%c0''\<rparr>)) = Allowed
   \<and> \<not> admitted sample_env idle 0 (probe\<lparr>req_path := ''/%c0''\<rparr>)
   \<and> status (fst (serve sample_env idle 0 (probe\<lparr>req_path := ''/%c0''\<rparr>))) = 400
   \<and> visited (snd (serve sample_env idle 0 (probe\<lparr>req_path := ''/%c0''\<rparr>)))
       = [RateLimiter, SecurityHeaders, CorsGate]"
proof -
  let ?r = "probe\<lparr>req_path := ''/unknown/path'', req_origin := Some ''http://example.com''\<rparr>"
  let ?m = "probe\<lparr>req_path := ''/%c0''\<rparr>"
  have q: "within_quota sample_env (rl_store idle) (req_ip ?r) 0"
    by (simp add: probe_simps idle_quota)
  have o: "origin_callback (req_origin ?r) \<noteq> Allowed"
    by (simp add: origins_evaluated)
  have refused: "status (fst (serve sample_env idle 0 ?r)) = 500"
    "NotFound \<notin> set (visited (snd (serve sample_env idle 0 ?r)))"
    by (simp_all add: serve_refused_origin[OF q o] error_response_def secured_simps)
  have qm: "within_quota sample_env (rl_store idle) (req_ip ?m) 0"
    and om: "origin_callback (req_origin ?m) = Allowed"
    and mm: "req_method ?m \<noteq> OPTIONS"
    and dm: "\<not> decodable sample_env (req_path ?m)"
    by (simp_all add: probe_simps idle_quota origins_evaluated sample_decodable)
  have malformed: "status (fst (serve sample_env idle 0 ?m)) = 400"
    "visited (snd (serve sample_env idle 0 ?m)) = [RateLimiter, SecurityHeaders, CorsGate]"
    by (simp_all add: serve_undecodable[OF qm om mm dm] error_response_def gated_simps)
  have paths: "\<not> mount_matches ''/api/v1/email'' ''/%c0''"
    "\<not> mount_matches ''/api/v1/auth'' ''/%c0''"
    "\<not> route_path_matches ''/health'' ''/%c0''"
    by (simp_all add: route_path_matches_def mount_matches_def lower_def lower_char_def)
  have stopped: "\<not> admitted sample_env idle 0 ?m"
    using dm by (simp add: admitted_iff)
  show ?thesis
    using refused malformed paths om stopped by (simp add: health_path_evaluated)
qed

section \<open>Other methods on the health path\<close>

text \<open>
  Claim C9, as amended. A request for \<^verbatim>\<open>/health\<close> with a method other than \<^verbatim>\<open>GET\<close> and
  \<^verbatim>\<open>HEAD\<close> that the middleware hands on to the routes (so not \<^verbatim>\<open>OPTIONS\<close> either, which
  the CORS gate answers) gets the catch-all handler's 404 with the body
  \<^verbatim>\<open>{error: "Not Found", path: "/health"}\<close>.
\<close>

theorem health_other_methods:
  assumes "admitted env w now r" and "req_path r = ''/health''"
    and "req_method r \<noteq> GET" and "req_method r \<noteq> HEAD"
  shows "status (fst (serve env w now r)) = 404
       \<and> payload (fst (serve env w now r))
           = JsonBody (JObject [(''error'', JString ''Not Found''), (''path'', JString ''/health'')])
       \<and> visited (snd (serve env w now r)) = pipeline_order @ [NotFound]"
proof -
  have hp: "route_path_matches ''/health'' (req_path r)"
    using assms(2) by (simp add: health_path_evaluated)
  have nm: "\<not> mount_matches ''/api/v1/email'' (req_path r)"
    "\<not> mount_matches ''/api/v1/auth'' (req_path r)"
    using health_path_not_mounted[OF hp] by simp_all
  have nh: "\<not> (handles_method GET (req_method r) \<and> route_path_matches ''/health'' (req_path r))"
    using assms(3,4) by (simp add: handles_method_def)
  show ?thesis
    using assms(2,4) by (simp add: serve_not_found[OF assms(1) nm nh])
qed

text \<open>
  \<^verbatim>\<open>POST /health\<close> on the idle sample server.
\<close>

theorem health_other_methods_witness:
  "admitted sample_env idle 0 (probe\<lparr>req_method := POST\<rparr>)
   \<and> req_path (probe\<lparr>req_method := POST\<rparr>) = ''/health''
   \<and> req_method (probe\<lparr>req_method := POST\<rparr>) \<noteq> GET
   \<and> req_method (probe\<lparr>req_method := POST\<rparr>) \<noteq> HEAD
   \<and> status (fst (serve sample_env idle 0 (probe\<lparr>req_method := POST\<rparr>))) = 404
   \<and> payload (fst (serve sample_env idle 0 (probe\<lparr>req_method := POST\<rparr>)))
       = JsonBody (JObject [(''error'', JString ''Not Found''), (''path'', JString ''/health'')])"
proof -
  let ?r = "probe\<lparr>req_method := POST\<rparr>"
  have a: "admitted sample_env idle 0 ?r"
    by (rule probe_admitted) (simp_all add: probe_simps sample_decodable)
  have b: "req_path ?r = ''/health''" and c: "req_method ?r \<noteq> GET" and d: "req_method ?r \<noteq> HEAD"
    by (simp_all add: probe_simps)
  show ?thesis
    using health_other_methods[OF a b c d] a b c d by simp
qed

text \<open>
  Claim C9 as stated fails: \<^verbatim>\<open>HEAD /health\<close> is answered by the health route with status
  200, because a route registered with \<^verbatim>\<open>app.get\<close> also answers \<^verbatim>\<open>HEAD\<close>.
\<close>

theorem head_health_answered:
  "req_path (probe\<lparr>req_method := HEAD\<rparr>) = ''/health''
   \<and> req_method (probe\<lparr>req_method := HEAD\<rparr>) \<noteq> GET
   \<and> status (fst (serve sample_env idle 0 (probe\<lparr>req_method := HEAD\<rparr>))) = 200
   \<and> visited (snd (serve sample_env idle 0 (probe\<lparr>req_method := HEAD\<rparr>)))
       = pipeline_order @ [HealthCheck]"
proof -
  let ?r = "probe\<lparr>req_method := HEAD\<rparr>"
  have a: "admitted sample_env idle 0 ?r"
    by (rule probe_admitted) (simp_all add: probe_simps sample_decodable)
  have g: "handles_method GET (req_method ?r)"
    by (simp add: handles_method_def)
  have p: "route_path_matches ''/health'' (req_path ?r)"
    by (simp add: probe_simps health_path_evaluated)
  show ?thesis
    by (simp add: serve_health[OF a g p] probe_simps)
qed

section \<open>Preflight requests\<close>

lemma preflight_headers_evaluated:
  "preflight_headers org hs ''Access-Control-Allow-Methods''
     = Some (HStr ''GET,POST,PUT,DELETE,OPTIONS,PATCH'')"
  "preflight_headers org hs ''Access-Control-Allow-Headers''
     = Some (HStr ''Content-Type,Authorization,X-Requested-With,Accept,Origin,Cache-Control'')"
  "preflight_headers org hs ''Access-Control-Allow-Credentials'' = Some (HStr ''true'')"
  "preflight_headers org hs ''Content-Length'' = Some (HStr ''0'')"
  by (simp_all add: preflight_headers_def cors_headers_def configureAllowedHeaders_def
      configureMethods_def configureCredentials_def corsOptions_def)

lemma cors_headers_evaluated:
  "cors_headers org hs ''Access-Control-Allow-Credentials'' = Some (HStr ''true'')"
  "s \<noteq> [] \<Longrightarrow> cors_headers (Some s) hs ''Access-Control-Allow-Origin'' = Some (HStr s)"
  "cors_headers None hs ''Access-Control-Allow-Origin'' = hs ''Access-Control-Allow-Origin''"
  "cors_headers (Some []) hs ''Access-Control-Allow-Origin'' = hs ''Access-Control-Allow-Origin''"
  by (simp_all add: cors_headers_def configureCredentials_def configureOrigin_def corsOptions_def)

lemma preflight_origin_evaluated:
  "s \<noteq> [] \<Longrightarrow> preflight_headers (Some s) hs ''Access-Control-Allow-Origin'' = Some (HStr s)"
  by (simp add: preflight_headers_def cors_headers_def configureAllowedHeaders_def
      configureMethods_def configureCredentials_def configureOrigin_def corsOptions_def)

text \<open>
  Claim C7, as amended. An \<^verbatim>\<open>OPTIONS\<close> request for any path, from an origin the allow-list
  rule allows and from a client within its rate-limit quota, is answered by the CORS gate
  with status 200, an empty body and the allow headers of the policy; no later stage runs.
\<close>

theorem preflight_answer:
  assumes "req_method r = OPTIONS" and "origin_callback (req_origin r) = Allowed"
    and "within_quota env (rl_store w) (req_ip r) now"
  shows "status (fst (serve env w now r)) = 200
       \<and> payload (fst (serve env w now r)) = NoBody
       \<and> headers (fst (serve env w now r)) ''Access-Control-Allow-Methods''
           = Some (HStr ''GET,POST,PUT,DELETE,OPTIONS,PATCH'')
       \<and> headers (fst (serve env w now r)) ''Access-Control-Allow-Headers''
           = Some (HStr ''Content-Type,Authorization,X-Requested-With,Accept,Origin,Cache-Control'')
       \<and> headers (fst (serve env w now r)) ''Access-Control-Allow-Credentials'' = Some (HStr ''true'')
       \<and> visited (snd (serve env w now r)) = [RateLimiter, SecurityHeaders, CorsGate]"
proof -
  note s = serve_preflight[OF assms(3,2,1)]
  have answer: "status (fst (serve env w now r)) = 200" "payload (fst (serve env w now r)) = NoBody"
    by (simp_all add: s)
  have allow: "headers (fst (serve env w now r))
                 = preflight_headers (req_origin r) (res_headers (secured env w now r))"
    by (simp add: s)
  have stopped: "visited (snd (serve env w now r)) = [RateLimiter, SecurityHeaders, CorsGate]"
    by (simp add: s secured_simps)
  show ?thesis
    by (simp add: answer allow stopped preflight_headers_evaluated)
qed

text \<open>
  A preflight request from the local front end on the idle sample server.
\<close>

theorem preflight_answer_witness:
  "req_method (probe\<lparr>req_method := OPTIONS, req_path := ''/api/v1/auth/login'',
                     req_origin := Some ''http://localhost:5173''\<rparr>) = OPTIONS
   \<and> origin_callback (req_origin (probe\<lparr>req_method := OPTIONS, req_path := ''/api/v1/auth/login'',
                     req_origin := Some ''http://localhost:5173''\<rparr>)) = Allowed
   \<and> within_quota sample_env (rl_store idle) (req_ip (probe\<lparr>req_method := OPTIONS,
                     req_path := ''/api/v1/auth/login'',
                     req_origin := Some ''http://localhost:5173''\<rparr>)) 0
   \<and> status (fst (serve sample_env idle 0 (probe\<lparr>req_method := OPTIONS,
                     req_path := ''/api/v1/auth/login'',
                     req_origin := Some ''http://localhost:5173''\<rparr>))) = 200"
proof -
  let ?r = "probe\<lparr>req_method := OPTIONS, req_path := ''/api/v1/auth/login'',
                  req_origin := Some ''http://localhost:5173''\<rparr>"
  have a: "req_method ?r = OPTIONS" by simp
  have b: "origin_callback (req_origin ?r) = Allowed" by (simp add: origins_evaluated)
  have c: "within_quota sample_env (rl_store idle) (req_ip ?r) 0" by (simp add: probe_simps idle_quota)
  show ?thesis
    using preflight_answer[OF a b c] a b c by blast
qed

text \<open>
  Claim C7 as stated fails: the rate limiter comes first, so a preflight request from an
  allowed origin by a client that has used up its window is answered with status 429.
\<close>

theorem preflight_over_quota:
  "req_method (probe\<lparr>req_method := OPTIONS, req_origin := Some ''http://localhost:5173''\<rparr>) = OPTIONS
   \<and> origin_callback (req_origin (probe\<lparr>req_method := OPTIONS,
                                        req_origin := Some ''http://localhost:5173''\<rparr>)) = Allowed
   \<and> status (fst (serve sample_env exhausted 5
         (probe\<lparr>req_method := OPTIONS, req_origin := Some ''http://localhost:5173''\<rparr>))) = 429
   \<and> visited (snd (serve sample_env exhausted 5
         (probe\<lparr>req_method := OPTIONS, req_origin := Some ''http://localhost:5173''\<rparr>)))
       = [RateLimiter]"
proof -
  let ?r = "probe\<lparr>req_method := OPTIONS, req_origin := Some ''http://localhost:5173''\<rparr>"
  have q: "\<not> within_quota sample_env (rl_store exhausted) (req_ip ?r) 5"
    by (simp add: probe_simps exhausted_quota)
  show ?thesis
    by (simp add: serve_over_quota[OF q] counted_simps origins_evaluated)
qed

section \<open>The CORS gate\<close>

lemma visited_past_gate:
  assumes "within_quota env (rl_store w) (req_ip r) now" "origin_callback (req_origin r) = Allowed"
    "req_method r \<noteq> OPTIONS" "decodable env (req_path r)"
  shows "\<exists>k. visited (snd (serve env w now r))
               = [RateLimiter, SecurityHeaders, CorsGate]
                 @ take k ([JsonBodyParser, CookieParser, UrlencodedBodyParser, RequestLogger]
                           @ matching env (routes env) r)
             \<and> 0 < k"
proof -
  let ?rest = "drop 4 (middleware env) @ routes env"
  have fr: "\<And>l. l \<in> set ?rest \<Longrightarrow> framed (handler_of l)"
    using parsers_framed framed_routes by auto
  have qt: "\<And>l e. l \<in> set ?rest
              \<Longrightarrow> layer_matches env (matcher_of l) (request (gated env w now r)) \<noteq> MatchError e"
    by (rule quiet_after_gate)
  have m: "matching env ?rest r
             = [JsonBodyParser, CookieParser, UrlencodedBodyParser, RequestLogger]
               @ matching env (routes env) r"
    using matching_parsers[of env r] by (simp add: matching_def)
  obtain k where k: "visited (final (dispatch env ?rest (gated env w now r)))
        = visited (gated env w now r) @ take k (matching env ?rest (request (gated env w now r)))"
      "matching env ?rest (request (gated env w now r)) = [] \<or> 0 < k"
    using dispatch_visited[where ls = ?rest and x = "gated env w now r" and env = env, OF fr qt]
    by blast
  have "dispatch env (app env) (arrive w now r) = dispatch env ?rest (gated env w now r)"
    using assms by (simp add: app_def walk_limiter walk_gate)
  then have "visited (snd (serve env w now r))
               = [RateLimiter, SecurityHeaders, CorsGate]
                 @ take k ([JsonBodyParser, CookieParser, UrlencodedBodyParser, RequestLogger]
                           @ matching env (routes env) r)"
    using k(1) by (simp add: snd_serve gated_simps m)
  moreover have "0 < k" using k(2) by (simp add: gated_simps m)
  ultimately show ?thesis by blast
qed

text \<open>
  Claim C2, as amended. Of the origins that are absent or not empty, the origin callback
  allows exactly the absent one and the two of the allow-list. For an allowed origin the
  gate writes \<^verbatim>\<open>Access-Control-Allow-Credentials\<close> and reflects a non-empty origin in
  \<^verbatim>\<open>Access-Control-Allow-Origin\<close>; an \<^verbatim>\<open>OPTIONS\<close> request is answered by the gate itself
  with status 200; any other request is passed on, and goes on to the JSON body parser if
  Express can decode its path, while otherwise the response has status 400 and no stage
  after the gate runs. For an origin that is not allowed the gate passes the error
  \<^verbatim>\<open>Not allowed by CORS\<close> on; the response has status 500 and no stage after the gate
  runs. (An \<^verbatim>\<open>Origin\<close> header with an empty value is left out of the statement: the test
  \<^verbatim>\<open>!origin\<close> of line 40 lets it through, while the comment above it speaks of requests
  with no origin.)
\<close>

theorem cors_gate:
  "(org \<noteq> Some [] \<longrightarrow>
      (origin_callback org = Allowed \<longleftrightarrow>
         org = None \<or> org = Some ''http://localhost:5173''
         \<or> org = Some ''https://salesfrontend-eight.vercel.app''))
   \<and> (origin_callback (req_origin (request x)) = Allowed \<and> req_method (request x) \<noteq> OPTIONS \<longrightarrow>
        passed (cors corsOptions x)
        \<and> res_headers (final (cors corsOptions x)) ''Access-Control-Allow-Credentials''
            = Some (HStr ''true'')
        \<and> (\<forall>s. req_origin (request x) = Some s \<and> s \<noteq> [] \<longrightarrow>
              res_headers (final (cors corsOptions x)) ''Access-Control-Allow-Origin''
                = Some (HStr s)))
   \<and> (origin_callback (req_origin (request x)) = Allowed \<and> req_method (request x) = OPTIONS \<longrightarrow>
        cors corsOptions x
          = Sent \<lparr>status = 200,
                  headers = preflight_headers (req_origin (request x)) (res_headers x),
                  payload = NoBody\<rparr>
              (x\<lparr>res_headers := preflight_headers (req_origin (request x)) (res_headers x)\<rparr>))
   \<and> (origin_callback (req_origin (request x)) \<noteq> Allowed \<longrightarrow>
        cors corsOptions x = NextErr (Error ''Not allowed by CORS'') x)
   \<and> (within_quota env (rl_store w) (req_ip r) now \<and> origin_callback (req_origin r) = Allowed
        \<and> req_method r \<noteq> OPTIONS \<and> decodable env (req_path r) \<longrightarrow>
        take 4 (visited (snd (serve env w now r)))
          = [RateLimiter, SecurityHeaders, CorsGate, JsonBodyParser])
   \<and> (within_quota env (rl_store w) (req_ip r) now \<and> origin_callback (req_origin r) = Allowed
        \<and> req_method r \<noteq> OPTIONS \<and> \<not> decodable env (req_path r) \<longrightarrow>
        status (fst (serve env w now r)) = 400
        \<and> visited (snd (serve env w now r)) = [RateLimiter, SecurityHeaders, CorsGate])
   \<and> (within_quota env (rl_store w) (req_ip r) now \<and> origin_callback (req_origin r) \<noteq> Allowed \<longrightarrow>
        status (fst (serve env w now r)) = 500
        \<and> visited (snd (serve env w now r)) = [RateLimiter, SecurityHeaders, CorsGate])"
proof -
  have listed: "origin_callback org = Allowed \<longleftrightarrow>
         org = None \<or> org = Some ''http://localhost:5173''
         \<or> org = Some ''https://salesfrontend-eight.vercel.app''"
    if "org \<noteq> Some []"
    using that origin_callback_Allowed_iff[of org] by blast
  have allowed: "passed (cors corsOptions x)
        \<and> res_headers (final (cors corsOptions x)) ''Access-Control-Allow-Credentials''
            = Some (HStr ''true'')
        \<and> (\<forall>s. req_origin (request x) = Some s \<and> s \<noteq> [] \<longrightarrow>
              res_headers (final (cors corsOptions x)) ''Access-Control-Allow-Origin''
                = Some (HStr s))"
    if "origin_callback (req_origin (request x)) = Allowed" "req_method (request x) \<noteq> OPTIONS"
  proof -
    have e: "cors corsOptions x
               = Next (x\<lparr>res_headers := cors_headers (req_origin (request x)) (res_headers x)\<rparr>)"
      using that by (subst cors_eq) simp
    show ?thesis
      unfolding e by (auto simp: cors_headers_evaluated)
  qed
  have preflight: "cors corsOptions x
          = Sent \<lparr>status = 200,
                  headers = preflight_headers (req_origin (request x)) (res_headers x),
                  payload = NoBody\<rparr>
              (x\<lparr>res_headers := preflight_headers (req_origin (request x)) (res_headers x)\<rparr>)"
    if "origin_callback (req_origin (request x)) = Allowed" "req_method (request x) = OPTIONS"
    using that by (subst cors_eq) simp
  have refused: "cors corsOptions x = NextErr (Error ''Not allowed by CORS'') x"
    if "origin_callback (req_origin (request x)) \<noteq> Allowed"
    using that by (subst cors_eq) simp
  have continues: "take 4 (visited (snd (serve env w now r)))
          = [RateLimiter, SecurityHeaders, CorsGate, JsonBodyParser]"
    if past: "within_quota env (rl_store w) (req_ip r) now" "origin_callback (req_origin r) = Allowed"
      "req_method r \<noteq> OPTIONS" "decodable env (req_path r)"
  proof -
    obtain k where k: "visited (snd (serve env w now r))
               = [RateLimiter, SecurityHeaders, CorsGate]
                 @ take k ([JsonBodyParser, CookieParser, UrlencodedBodyParser, RequestLogger]
                           @ matching env (routes env) r)" "0 < k"
      using visited_past_gate[OF past] by blast
    obtain j where "k = Suc j" using k(2) by (cases k) auto
    then show ?thesis using k(1) by simp
  qed
  have malformed: "status (fst (serve env w now r)) = 400
        \<and> visited (snd (serve env w now r)) = [RateLimiter, SecurityHeaders, CorsGate]"
    if "within_quota env (rl_store w) (req_ip r) now" "origin_callback (req_origin r) = Allowed"
      "req_method r \<noteq> OPTIONS" "\<not> decodable env (req_path r)"
    using that by (simp add: serve_undecodable error_response_def gated_simps)
  have stops: "status (fst (serve env w now r)) = 500
        \<and> visited (snd (serve env w now r)) = [RateLimiter, SecurityHeaders, CorsGate]"
    if "within_quota env (rl_store w) (req_ip r) now" "origin_callback (req_origin r) \<noteq> Allowed"
    using that by (simp add: serve_refused_origin error_response_def secured_simps)
  show ?thesis
    using listed allowed preflight refused continues malformed stops
    by blast
qed

text \<open>
  The gate on a request from the local front end and on one from \<^verbatim>\<open>http://example.com\<close>.
\<close>

theorem cors_gate_witness:
  "origin_callback (req_origin (request (arrive idle 0 (probe\<lparr>req_origin := Some ''http://localhost:5173''\<rparr>))))
     = Allowed
   \<and> req_method (request (arrive idle 0 (probe\<lparr>req_origin := Some ''http://localhost:5173''\<rparr>))) \<noteq> OPTIONS
   \<and> passed (cors corsOptions (arrive idle 0 (probe\<lparr>req_origin := Some ''http://localhost:5173''\<rparr>)))
   \<and> res_headers (final (cors corsOptions
         (arrive idle 0 (probe\<lparr>req_origin := Some ''http://localhost:5173''\<rparr>))))
       ''Access-Control-Allow-Origin'' = Some (HStr ''http://localhost:5173'')
   \<and> decodable sample_env (req_path (probe\<lparr>req_origin := Some ''http://localhost:5173''\<rparr>))
   \<and> take 4 (visited (snd (serve sample_env idle 0
         (probe\<lparr>req_origin := Some ''http://localhost:5173''\<rparr>))))
       = [RateLimiter, SecurityHeaders, CorsGate, JsonBodyParser]
   \<and> origin_callback (req_origin (request (arrive idle 0 (probe\<lparr>req_origin := Some ''http://example.com''\<rparr>))))
     \<noteq> Allowed
   \<and> cors corsOptions (arrive idle 0 (probe\<lparr>req_origin := Some ''http://example.com''\<rparr>))
       = NextErr (Error ''Not allowed by CORS'')
           (arrive idle 0 (probe\<lparr>req_origin := Some ''http://example.com''\<rparr>))
   \<and> within_quota sample_env (rl_store idle) (req_ip (probe\<lparr>req_origin := Some ''http://example.com''\<rparr>)) 0
   \<and> status (fst (serve sample_env idle 0 (probe\<lparr>req_origin := Some ''http://example.com''\<rparr>))) = 500"
proof -
  let ?good = "probe\<lparr>req_origin := Some ''http://localhost:5173''\<rparr>"
  let ?bad = "probe\<lparr>req_origin := Some ''http://example.com''\<rparr>"
  have a: "origin_callback (req_origin (request (arrive idle 0 ?good))) = Allowed"
    and b: "req_method (request (arrive idle 0 ?good)) \<noteq> OPTIONS"
    and c: "origin_callback (req_origin (request (arrive idle 0 ?bad))) \<noteq> Allowed"
    and d: "within_quota sample_env (rl_store idle) (req_ip ?bad) 0"
    and e: "origin_callback (req_origin ?bad) \<noteq> Allowed"
    and f: "req_origin (request (arrive idle 0 ?good)) = Some ''http://localhost:5173''"
    and g: "within_quota sample_env (rl_store idle) (req_ip ?good) 0"
    and h: "origin_callback (req_origin ?good) = Allowed"
    and i: "req_method ?good \<noteq> OPTIONS"
    and j: "decodable sample_env (req_path ?good)"
    by (simp_all add: arrive_simps origins_evaluated probe_simps idle_quota sample_decodable)
  note t1 = cors_gate[where org = None and x = "arrive idle 0 ?good" and w = idle and now = 0
                       and r = ?good and env = sample_env]
  note t2 = cors_gate[where org = None and x = "arrive idle 0 ?bad" and w = idle and now = 0
                       and r = ?bad and env = sample_env]
  have 1: "passed (cors corsOptions (arrive idle 0 ?good))
     \<and> (\<forall>s. req_origin (request (arrive idle 0 ?good)) = Some s \<and> s \<noteq> [] \<longrightarrow>
              res_headers (final (cors corsOptions (arrive idle 0 ?good))) ''Access-Control-Allow-Origin''
                = Some (HStr s))"
    using t1 a b by blast
  then have 2: "res_headers (final (cors corsOptions (arrive idle 0 ?good)))
       ''Access-Control-Allow-Origin'' = Some (HStr ''http://localhost:5173'')"
    using f by auto
  have 3: "take 4 (visited (snd (serve sample_env idle 0 ?good)))
       = [RateLimiter, SecurityHeaders, CorsGate, JsonBodyParser]"
    using t1 g h i j by blast
  have 4: "cors corsOptions (arrive idle 0 ?bad)
       = NextErr (Error ''Not allowed by CORS'') (arrive idle 0 ?bad)"
    using t2 c by blast
  have 5: "status (fst (serve sample_env idle 0 ?bad)) = 500"
    using t2 d e by blast
  show ?thesis
    using a b c d j 1 2 3 4 5 by blast
qed

text \<open>
  Claim C2 as stated fails: a request without an origin is allowed, yet the pipeline does
  not always continue. An \<^verbatim>\<open>OPTIONS\<close> request is answered by the gate itself; and for
  \<^verbatim>\<open>GET /%c0\<close> the gate calls \<^verbatim>\<open>next()\<close>, but the path test of the following layer fails
  and the response is the error 400.
\<close>

theorem cors_gate_allowed_but_stopped:
  "origin_callback (req_origin (probe\<lparr>req_method := OPTIONS\<rparr>)) = Allowed
   \<and> \<not> passed (cors corsOptions (arrive idle 0 (probe\<lparr>req_method := OPTIONS\<rparr>)))
   \<and> visited (snd (serve sample_env idle 0 (probe\<lparr>req_method := OPTIONS\<rparr>)))
       = [RateLimiter, SecurityHeaders, CorsGate]
   \<and> origin_callback (req_origin (probe\<lparr>req_path := ''/%c0''\<rparr>)) = Allowed
   \<and> passed (cors corsOptions (arrive idle 0 (probe\<lparr>req_path := ''/%c0''\<rparr>)))
   \<and> status (fst (serve sample_env idle 0 (probe\<lparr>req_path := ''/%c0''\<rparr>))) = 400
   \<and> visited (snd (serve sample_env idle 0 (probe\<lparr>req_path := ''/%c0''\<rparr>)))
       = [RateLimiter, SecurityHeaders, CorsGate]"
proof -
  let ?r = "probe\<lparr>req_method := OPTIONS\<rparr>"
  let ?m = "probe\<lparr>req_path := ''/%c0''\<rparr>"
  have q: "within_quota sample_env (rl_store idle) (req_ip ?r) 0"
    by (simp add: probe_simps idle_quota)
  have o: "origin_callback (req_origin ?r) = Allowed"
    by (simp add: probe_simps origins_evaluated)
  have m: "req_method ?r = OPTIONS" by simp
  have 1: "\<not> passed (cors corsOptions (arrive idle 0 ?r))"
    by (subst cors_eq) (simp add: arrive_simps origins_evaluated probe_simps)
  have 2: "visited (snd (serve sample_env idle 0 ?r)) = [RateLimiter, SecurityHeaders, CorsGate]"
    by (simp add: serve_preflight[OF q o m] secured_simps)
  have qm: "within_quota sample_env (rl_store idle) (req_ip ?m) 0"
    and om: "origin_callback (req_origin ?m) = Allowed"
    and mm: "req_method ?m \<noteq> OPTIONS"
    and dm: "\<not> decodable sample_env (req_path ?m)"
    by (simp_all add: probe_simps idle_quota origins_evaluated sample_decodable)
  have 3: "passed (cors corsOptions (arrive idle 0 ?m))"
    by (subst cors_eq) (simp add: arrive_simps origins_evaluated probe_simps)
  have 4: "status (fst (serve sample_env idle 0 ?m)) = 400"
    "visited (snd (serve sample_env idle 0 ?m)) = [RateLimiter, SecurityHeaders, CorsGate]"
    by (simp_all add: serve_undecodable[OF qm om mm dm] error_response_def gated_simps)
  show ?thesis
    using o om 1 2 3 4 by simp
qed

section \<open>The order of the stages\<close>













section \<open>The rate limiter comes before the CORS gate\<close>




section \<open>The JSON body limit\<close>





section \<open>The window of the rate limiter\<close>





lemma state_after_append:
  "state_after env w (xs @ ys) = state_after env (state_after env w xs) ys"
  by (induction xs arbitrary: w) auto












section \<open>Shutdown\<close>

lemma emitCloseIfDrained_simps:
  "listening (emitCloseIfDrained s) = listening s"
  "connections (emitCloseIfDrained s) = connections s"
  "in_flight (emitCloseIfDrained s) = in_flight s"
  by (simp_all add: emitCloseIfDrained_def)

lemma server_close_simps:
  "listening (server_close closes_idle s) = False"
  "connections (server_close closes_idle s)
     = (if closes_idle then connections s \<inter> in_flight s else connections s)"
  "in_flight (server_close closes_idle s) = in_flight s"
  by (simp_all add: server_close_def closeIdleConnections_def emitCloseIfDrained_simps)

lemma step_connections:
  "\<not> listening s \<Longrightarrow> connections (step closes_idle s e) \<subseteq> connections s"
  by (cases e) (auto simp: emitCloseIfDrained_simps server_close_simps)

lemma step_listening: "\<not> listening s \<Longrightarrow> \<not> listening (step closes_idle s e)"
  by (cases e) (simp_all add: emitCloseIfDrained_simps server_close_simps)

lemma run_closed:
  "\<not> listening s \<Longrightarrow>
     \<not> listening (run closes_idle s es) \<and> connections (run closes_idle s es) \<subseteq> connections s"
proof (induction es arbitrary: s)
  case Nil
  show ?case using Nil by simp
next
  case (Cons e es)
  have "\<not> listening (step closes_idle s e)" using Cons.prems by (rule step_listening)
  then have "\<not> listening (run closes_idle (step closes_idle s e) es)
             \<and> connections (run closes_idle (step closes_idle s e) es)
                 \<subseteq> connections (step closes_idle s e)"
    by (rule Cons.IH)
  then show ?case using step_connections[OF Cons.prems, of closes_idle e] by auto
qed

text \<open>
  A request in flight stays in flight, on an open connection, until it is answered or its
  connection ends: nothing the server does on its own ends it.
\<close>

lemma step_in_flight:
  assumes "c \<in> in_flight s" "c \<in> connections s" "e \<noteq> Respond c" "e \<noteq> Finish c"
  shows "c \<in> in_flight (step closes_idle s e) \<and> c \<in> connections (step closes_idle s e)"
  using assms by (cases e) (auto simp: emitCloseIfDrained_simps server_close_simps)

lemma run_in_flight:
  assumes "c \<in> in_flight s" "c \<in> connections s" "Respond c \<notin> set es" "Finish c \<notin> set es"
  shows "c \<in> in_flight (run closes_idle s es) \<and> c \<in> connections (run closes_idle s es)"
  using assms
proof (induction es arbitrary: s)
  case Nil
  then show ?case by simp
next
  case (Cons e es)
  have "c \<in> in_flight (step closes_idle s e) \<and> c \<in> connections (step closes_idle s e)"
    using Cons.prems by (intro step_in_flight) auto
  then show ?case using Cons.IH[of "step closes_idle s e"] Cons.prems by simp
qed

lemma serving_listen: "serving (listen PORT NODE_ENV)"
  by (simp add: serving_def listen_def)

lemma serving_step: "serving s \<Longrightarrow> e \<noteq> SIGTERM \<Longrightarrow> serving (step closes_idle s e)"
  by (cases e) (auto simp: serving_def emitCloseIfDrained_def)

lemma serving_run: "serving s \<Longrightarrow> SIGTERM \<notin> set es \<Longrightarrow> serving (run closes_idle s es)"
  by (induction es arbitrary: s) (auto simp: serving_step)

lemma draining_SIGTERM: "serving s \<Longrightarrow> draining (step closes_idle s SIGTERM)"
  by (auto simp: serving_def draining_def server_close_def closeIdleConnections_def
      emitCloseIfDrained_def)

lemma draining_step: "draining s \<Longrightarrow> draining (step closes_idle s e)"
  by (cases e)
     (auto simp: draining_def server_close_def closeIdleConnections_def emitCloseIfDrained_def
        split: if_splits)

lemma draining_run: "draining s \<Longrightarrow> draining (run closes_idle s es)"
  by (induction es arbitrary: s) (auto simp: draining_step)

lemma step_out_grows: "set (out s) \<subseteq> set (out (step closes_idle s e))"
  by (cases e) (auto simp: server_close_def closeIdleConnections_def emitCloseIfDrained_def)

lemma run_out_grows: "set (out s) \<subseteq> set (out (run closes_idle s es))"
proof (induction es arbitrary: s)
  case Nil
  show ?case by simp
next
  case (Cons e es)
  show ?case using step_out_grows[of s closes_idle e] Cons.IH[of "step closes_idle s e"] by auto
qed

lemma run_append: "run closes_idle s (xs @ ys) = run closes_idle (run closes_idle s xs) ys"
  by (induction xs arbitrary: s) auto

text \<open>
  Claim C8. Take any run of the process in which \<^verbatim>\<open>SIGTERM\<close> arrives after a series of
  connections and requests, followed by anything at all, on a Node that closes idle
  connections at \<^verbatim>\<open>server.close\<close> or on one that does not. The signal handler ends no
  request in flight: the requests in flight before the signal are in flight after it, on
  connections that stay open, and each stays so until it is answered or its connection
  ends. From the signal on the server does not listen, so the open connections are among
  those open at the signal and no new one is ever accepted; the first line of the handler
  is logged; \<^verbatim>\<open>Process terminated\<close> is logged exactly when no connection is open any
  more, hence with no request in flight; and from then on the server no longer keeps the
  process alive.
\<close>

theorem graceful_shutdown:
  assumes "SIGTERM \<notin> set before"
  shows "in_flight (step closes_idle (run closes_idle (listen PORT NODE_ENV) before) SIGTERM)
           = in_flight (run closes_idle (listen PORT NODE_ENV) before)
       \<and> in_flight (run closes_idle (listen PORT NODE_ENV) before)
           \<subseteq> connections (step closes_idle (run closes_idle (listen PORT NODE_ENV) before) SIGTERM)
       \<and> (\<forall>c \<in> in_flight (run closes_idle (listen PORT NODE_ENV) before).
            Respond c \<notin> set after \<and> Finish c \<notin> set after \<longrightarrow>
            c \<in> in_flight (run closes_idle (listen PORT NODE_ENV) (before @ SIGTERM # after))
            \<and> c \<in> connections (run closes_idle (listen PORT NODE_ENV) (before @ SIGTERM # after)))
       \<and> \<not> listening (run closes_idle (listen PORT NODE_ENV) (before @ SIGTERM # after))
       \<and> connections (run closes_idle (listen PORT NODE_ENV) (before @ SIGTERM # after))
           \<subseteq> connections (run closes_idle (listen PORT NODE_ENV) before)
       \<and> ''SIGTERM received. Shutting down gracefully''
           \<in> set (out (run closes_idle (listen PORT NODE_ENV) (before @ SIGTERM # after)))
       \<and> (''Process terminated''
             \<in> set (out (run closes_idle (listen PORT NODE_ENV) (before @ SIGTERM # after)))
            \<longleftrightarrow> connections (run closes_idle (listen PORT NODE_ENV) (before @ SIGTERM # after)) = {})
       \<and> (''Process terminated''
             \<in> set (out (run closes_idle (listen PORT NODE_ENV) (before @ SIGTERM # after)))
            \<longrightarrow> in_flight (run closes_idle (listen PORT NODE_ENV) (before @ SIGTERM # after)) = {})
       \<and> (keeps_alive (run closes_idle (listen PORT NODE_ENV) (before @ SIGTERM # after))
            \<longleftrightarrow> connections (run closes_idle (listen PORT NODE_ENV) (before @ SIGTERM # after)) \<noteq> {})"
proof -
  let ?s = "run closes_idle (listen PORT NODE_ENV) before"
  let ?t = "step closes_idle ?s SIGTERM"
  let ?u = "run closes_idle (listen PORT NODE_ENV) (before @ SIGTERM # after)"
  have u: "?u = run closes_idle ?t after"
    by (simp add: run_append)
  have sv: "serving ?s"
    using serving_listen assms by (rule serving_run)
  then have tidy: "in_flight ?s \<subseteq> connections ?s"
    by (simp add: serving_def)
  have dr: "draining ?u"
    unfolding u using draining_SIGTERM[OF sv] by (rule draining_run)
  have kept: "in_flight ?t = in_flight ?s" "in_flight ?s \<subseteq> connections ?t"
    using tidy by (auto simp: server_close_simps)
  have fewer: "connections ?t \<subseteq> connections ?s"
    by (auto simp: server_close_simps)
  have nl: "\<not> listening ?t"
    by (simp add: server_close_simps)
  have closed: "\<not> listening ?u" "connections ?u \<subseteq> connections ?s"
    unfolding u using run_closed[OF nl, of closes_idle after] fewer by auto
  have completes: "c \<in> in_flight ?u \<and> c \<in> connections ?u"
    if "c \<in> in_flight ?s" "Respond c \<notin> set after" "Finish c \<notin> set after" for c
    unfolding u using that kept by (intro run_in_flight) auto
  have "''SIGTERM received. Shutting down gracefully'' \<in> set (out ?t)"
    by (simp add: server_close_def closeIdleConnections_def emitCloseIfDrained_def)
  then have logged: "''SIGTERM received. Shutting down gracefully'' \<in> set (out ?u)"
    unfolding u using run_out_grows[of ?t closes_idle after] by blast
  have finished: "''Process terminated'' \<in> set (out ?u) \<longleftrightarrow> connections ?u = {}"
    using dr by (auto simp: draining_def split: if_splits)
  have quiet: "in_flight ?u = {}" if "''Process terminated'' \<in> set (out ?u)"
    using dr that finished by (auto simp: draining_def)
  have alive: "keeps_alive ?u \<longleftrightarrow> connections ?u \<noteq> {}"
    using closed(1) by (simp add: keeps_alive_def)
  show ?thesis
    using kept closed completes logged finished quiet alive by blast
qed

text \<open>
  Two connections, one idle and one with a request in flight at the signal, on a Node that
  closes idle connections: the idle one is closed, the request stays in flight, a third
  connection is refused, and the completion line follows the end of the second connection.
  With one idle connection only, the completion line is written at the signal on such a
  Node and not on an older one.
\<close>

theorem graceful_shutdown_witness:
  "SIGTERM \<notin> set [Connect 1, Connect 2, Request 2]
   \<and> connections (run True (listen None None) [Connect 1, Connect 2, Request 2]) = {1, 2}
   \<and> in_flight (run True (listen None None) [Connect 1, Connect 2, Request 2]) = {2}
   \<and> connections (run True (listen None None)
        ([Connect 1, Connect 2, Request 2] @ SIGTERM # [Connect 3])) = {2}
   \<and> 2 \<in> in_flight (run True (listen None None)
        ([Connect 1, Connect 2, Request 2] @ SIGTERM # [Connect 3]))
   \<and> ''Process terminated''
       \<notin> set (out (run True (listen None None)
                  ([Connect 1, Connect 2, Request 2] @ SIGTERM # [Connect 3])))
   \<and> out (run True (listen None None)
        ([Connect 1, Connect 2, Request 2] @ SIGTERM # [Connect 3, Respond 2, Finish 2]))
       = [''Server is running on port 8000'', ''Environment: development'',
          ''SIGTERM received. Shutting down gracefully'', ''Process terminated'']
   \<and> \<not> keeps_alive (run True (listen None None)
        ([Connect 1, Connect 2, Request 2] @ SIGTERM # [Connect 3, Respond 2, Finish 2]))
   \<and> out (run True (listen None None) [Connect 1, SIGTERM])
       = [''Server is running on port 8000'', ''Environment: development'',
          ''SIGTERM received. Shutting down gracefully'', ''Process terminated'']
   \<and> ''Process terminated'' \<notin> set (out (run False (listen None None) [Connect 1, SIGTERM]))"
proof -
  let ?before = "[Connect 1, Connect 2, Request 2]"
  note ev = listen_def server_close_def closeIdleConnections_def emitCloseIfDrained_def
    or_default_def
  have a: "SIGTERM \<notin> set ?before" by simp
  have b: "connections (run True (listen None None) ?before) = {1, 2}"
    "in_flight (run True (listen None None) ?before) = {2}"
    by (auto simp: ev)
  have c: "connections (run True (listen None None) (?before @ SIGTERM # [Connect 3])) = {2}"
    by (auto simp: ev)
  have d: "out (run True (listen None None) (?before @ SIGTERM # [Connect 3, Respond 2, Finish 2]))
       = [''Server is running on port 8000'', ''Environment: development'',
          ''SIGTERM received. Shutting down gracefully'', ''Process terminated'']"
    by (auto simp: ev)
  have e: "connections (run True (listen None None)
             (?before @ SIGTERM # [Connect 3, Respond 2, Finish 2])) = {}"
    by (auto simp: ev)
  have idle: "out (run True (listen None None) [Connect 1, SIGTERM])
       = [''Server is running on port 8000'', ''Environment: development'',
          ''SIGTERM received. Shutting down gracefully'', ''Process terminated'']"
    "''Process terminated'' \<notin> set (out (run False (listen None None) [Connect 1, SIGTERM]))"
    by (auto simp: ev)
  note t1 = graceful_shutdown[OF a, of True None None "[Connect 3]"]
  note t2 = graceful_shutdown[OF a, of True None None "[Connect 3, Respond 2, Finish 2]"]
  have f: "''Process terminated''
       \<notin> set (out (run True (listen None None) (?before @ SIGTERM # [Connect 3])))"
    using t1 c by simp
  have "\<forall>c \<in> in_flight (run True (listen None None) ?before).
            Respond c \<notin> set [Connect 3] \<and> Finish c \<notin> set [Connect 3] \<longrightarrow>
            c \<in> in_flight (run True (listen None None) (?before @ SIGTERM # [Connect 3]))"
    using t1 by blast
  then have g: "2 \<in> in_flight (run True (listen None None) (?before @ SIGTERM # [Connect 3]))"
    using b(2) by auto
  have h: "\<not> keeps_alive (run True (listen None None)
             (?before @ SIGTERM # [Connect 3, Respond 2, Finish 2]))"
    using t2 e by simp
  show ?thesis
    using a b c d f g h idle by blast
qed

end
